theory Spec2Isabelle
  imports Complex_Main "HOL-Library.Multiset"
begin

text \<open>
  The conversion core of the image converter (\<^verbatim>\<open>src/client/lazy-app/core/convert.ts\<close>):
  the four stages \<^verbatim>\<open>decodeImage\<close>, \<^verbatim>\<open>preprocessImage\<close>, \<^verbatim>\<open>processImage\<close> and
  \<^verbatim>\<open>encodeImage\<close>, the single-item pipeline \<^verbatim>\<open>convertFile\<close> and the batch scheduler
  \<^verbatim>\<open>convertFiles\<close>. An async function is modelled by the value it settles with and the
  capability invocations it makes; the scheduler by the steps between its suspension
  points, run under an arbitrary schedule of completions.
\<close>

section \<open>Values exchanged by the conversion core\<close>

text \<open>
  A thrown JavaScript value, as far as \<^verbatim>\<open>convert.ts\<close> inspects it: whether it is
  \<^verbatim>\<open>instanceof Error\<close>, its \<^verbatim>\<open>name\<close> and its \<^verbatim>\<open>message\<close>.
\<close>

datatype thrown = Thrown (instanceof_Error: bool) (err_name: string) (err_message: string)

text \<open>\<^verbatim>\<open>Error(msg)\<close>: an Error object whose name is the default "Error".\<close>

definition Error :: "string \<Rightarrow> thrown" where
  "Error msg = Thrown True ''Error'' msg"

text \<open>The message of the error thrown by the catch clause of \<^verbatim>\<open>decodeImage\<close>.\<close>

definition couldnt_decode :: string where
  "couldnt_decode = ''Couldn'' @ [CHR 0x27] @ ''t decode image''"

text \<open>
  A \<^verbatim>\<open>File\<close> (and the \<^verbatim>\<open>Blob\<close> it is passed as): its name, its declared
  \<^verbatim>\<open>type\<close> (field \<open>mime\<close>) and its bytes. \<^verbatim>\<open>ImageData\<close> has its \<^verbatim>\<open>data\<close> in
  field \<open>pixel_data\<close>.
\<close>

record File =
  name :: string
  mime :: string
  bits :: "nat list"

record ImageData =
  width :: nat
  height :: nat
  pixel_data :: "nat list"

record AbortSignal =
  aborted :: bool

type_synonym EncoderOptions = "(string \<times> int) list"

text \<open>The encoders the sources name (the selection of \<^verbatim>\<open>SimpleApp\<close>).\<close>

datatype EncoderType = mozJPEG | webP | avif

text \<open>\<^verbatim>\<open>rotate\<close> is the rotation angle in degrees.\<close>

record RotateOptions =
  rotate :: int

text \<open>Field \<open>rotate_opts\<close> is \<^verbatim>\<open>PreprocessorState.rotate\<close>.\<close>

record PreprocessorState =
  rotate_opts :: RotateOptions

text \<open>
  The sub-configuration of one processor: \<^verbatim>\<open>enabled\<close> and the remaining,
  processor-specific settings, which \<^verbatim>\<open>convert.ts\<close> passes on without reading them.
\<close>

record ProcessorOptions =
  enabled :: bool
  settings :: "(string \<times> int) list"

text \<open>Fields \<open>resize_opts\<close>, \<open>quantize_opts\<close> are \<^verbatim>\<open>ProcessorState.resize\<close>, \<^verbatim>\<open>.quantize\<close>.\<close>

record ProcessorState =
  resize_opts :: ProcessorOptions
  quantize_opts :: ProcessorOptions

record ConvertOptions =
  encoder :: EncoderType
  encoderOptions :: "EncoderOptions option"
  preprocessorState :: "PreprocessorState option"
  processorState :: "ProcessorState option"

text \<open>
  A JavaScript number, as far as \<^verbatim>\<open>convertFiles\<close> computes with it: \<^verbatim>\<open>NaN\<close>, the two
  infinities, or a finite value. \<^verbatim>\<open>Math.min\<close>, \<^verbatim>\<open>Math.max\<close> and the truncation of an
  array length are exact on finite values, so a finite number is modelled by the real
  number it denotes (the sign of zero plays no part in \<^verbatim>\<open>convertFiles\<close>).
\<close>

datatype number = NaN | NegInfinity | Finite real | Infinity

text \<open>\<^verbatim>\<open>Math.min(a, b)\<close> and \<^verbatim>\<open>Math.max(a, b)\<close>: \<^verbatim>\<open>NaN\<close> when either argument is.\<close>

fun Math_min :: "number \<Rightarrow> number \<Rightarrow> number" where
  "Math_min NaN b = NaN"
| "Math_min a NaN = NaN"
| "Math_min NegInfinity b = NegInfinity"
| "Math_min a NegInfinity = NegInfinity"
| "Math_min Infinity b = b"
| "Math_min a Infinity = a"
| "Math_min (Finite x) (Finite y) = Finite (min x y)"

fun Math_max :: "number \<Rightarrow> number \<Rightarrow> number" where
  "Math_max NaN b = NaN"
| "Math_max a NaN = NaN"
| "Math_max Infinity b = Infinity"
| "Math_max a Infinity = Infinity"
| "Math_max NegInfinity b = b"
| "Math_max a NegInfinity = a"
| "Math_max (Finite x) (Finite y) = Finite (max x y)"

text \<open>
  The length \<^verbatim>\<open>Array.from\<close> reads off \<^verbatim>\<open>{ length: x }\<close> (the abstract operation
  \<^verbatim>\<open>ToLength\<close>): \<^verbatim>\<open>NaN\<close> counts as 0, a finite value is truncated to an integer, and
  the result is kept between 0 and \<open>2\<^sup>5\<^sup>3 - 1\<close>.
\<close>

fun ToLength :: "number \<Rightarrow> nat" where
  "ToLength NaN = 0"
| "ToLength NegInfinity = 0"
| "ToLength (Finite x) = min (nat \<lfloor>x\<rfloor>) (2 ^ 53 - 1)"
| "ToLength Infinity = 2 ^ 53 - 1"

text \<open>
  \<^verbatim>\<open>BatchOptions extends ConvertOptions\<close>. \<^verbatim>\<open>concurrency\<close> is a number, or absent.
  \<^verbatim>\<open>onProgress\<close>, when present, is code of the caller: called with \<open>done\<close> and
  \<open>total\<close> it returns (\<open>None\<close>) or throws (\<open>Some\<close> of the value thrown).
\<close>

record BatchOptions = ConvertOptions +
  concurrency :: "number option"
  onProgress :: "(nat \<Rightarrow> nat \<Rightarrow> thrown option) option"

text \<open>Field \<open>outputFile\<close> is \<^verbatim>\<open>ConvertResult.output\<close>.\<close>

record ConvertResult =
  input :: File
  outputFile :: File
  processed :: "ImageData option"

section \<open>The capability provider and the imported modules\<close>

text \<open>
  The codecs, the worker bridge and the helpers of \<^verbatim>\<open>../util\<close> and
  \<^verbatim>\<open>../feature-meta\<close> are not part of the sources; they are parameters of the model.
  Every capability receives the abort signal and either returns a value or throws.
\<close>

record WorkerBridge =
  avifDecode :: "AbortSignal \<Rightarrow> File \<Rightarrow> thrown + ImageData"
  webpDecode :: "AbortSignal \<Rightarrow> File \<Rightarrow> thrown + ImageData"
  jxlDecode :: "AbortSignal \<Rightarrow> File \<Rightarrow> thrown + ImageData"
  wp2Decode :: "AbortSignal \<Rightarrow> File \<Rightarrow> thrown + ImageData"
  qoiDecode :: "AbortSignal \<Rightarrow> File \<Rightarrow> thrown + ImageData"
  rotate_cap :: "AbortSignal \<Rightarrow> ImageData \<Rightarrow> RotateOptions \<Rightarrow> thrown + ImageData"
  quantize_cap :: "AbortSignal \<Rightarrow> ImageData \<Rightarrow> ProcessorOptions \<Rightarrow> thrown + ImageData"

record EncoderMeta =
  mimeType :: string
  extension :: string
  defaultOptions :: EncoderOptions

record Encoder =
  meta :: EncoderMeta
  encode :: "AbortSignal \<Rightarrow> WorkerBridge \<Rightarrow> ImageData \<Rightarrow> EncoderOptions \<Rightarrow> thrown + nat list"

record Env =
  newWorkerBridge :: WorkerBridge
  encoderMap :: "EncoderType \<Rightarrow> Encoder"
  defaultPreprocessorState :: PreprocessorState
  defaultProcessorState :: ProcessorState
  sniffMimeType :: "File \<Rightarrow> thrown + string"
  canDecodeImageType :: "string \<Rightarrow> thrown + bool"
  builtinDecode :: "AbortSignal \<Rightarrow> File \<Rightarrow> thrown + ImageData"
  resize_cap :: "AbortSignal \<Rightarrow> ImageData \<Rightarrow> ImageData \<Rightarrow> ProcessorOptions \<Rightarrow> WorkerBridge
    \<Rightarrow> thrown + ImageData"

text \<open>The capability invocations an execution makes, in order.\<close>

datatype call =
    CallAvifDecode File
  | CallWebpDecode File
  | CallJxlDecode File
  | CallWp2Decode File
  | CallQoiDecode File
  | CallBuiltinDecode File
  | CallRotate ImageData RotateOptions
  | CallResize ImageData ImageData ProcessorOptions
  | CallQuantize ImageData ProcessorOptions
  | CallEncode EncoderType ImageData EncoderOptions

section \<open>Async functions as values\<close>

text \<open>
  The outcome of an async function: the value it resolves with or the value it rejects
  with, and the capability invocations it made on the way.
\<close>

type_synonym 'a promise = "(thrown + 'a) \<times> call list"

definition resolve :: "'a \<Rightarrow> 'a promise" where
  "resolve x = (Inr x, [])"

definition reject :: "thrown \<Rightarrow> 'a promise" where
  "reject e = (Inl e, [])"

definition invoke :: "call \<Rightarrow> thrown + 'a \<Rightarrow> 'a promise" where
  "invoke c r = (r, [c])"

text \<open>\<^verbatim>\<open>const x = await p; k(x)\<close>: a rejection of \<open>p\<close> skips the continuation.\<close>

definition await :: "'a promise \<Rightarrow> ('a \<Rightarrow> 'b promise) \<Rightarrow> 'b promise" where
  "await p k =
     (case p of
        (Inl e, t) \<Rightarrow> (Inl e, t)
      | (Inr x, t) \<Rightarrow> (case k x of (r, t') \<Rightarrow> (r, t @ t')))"

text \<open>\<^verbatim>\<open>try { p } catch (err) { h(err) }\<close>.\<close>

definition try_catch :: "'a promise \<Rightarrow> (thrown \<Rightarrow> 'a promise) \<Rightarrow> 'a promise" where
  "try_catch p h =
     (case p of
        (Inl e, t) \<Rightarrow> (case h e of (r, t') \<Rightarrow> (r, t @ t'))
      | (Inr x, t) \<Rightarrow> (Inr x, t))"

text \<open>
  Modelled from the spec: \<^verbatim>\<open>assertSignal\<close> and \<^verbatim>\<open>abortable\<close> of \<^verbatim>\<open>../util\<close>,
  which is not part of the sources. The spec has a cancellation error "raised when the
  shared token fires", checked "immediately before dispatching each stage"; the catch
  clause of \<^verbatim>\<open>decodeImage\<close> recognises it as an Error named "AbortError".
\<close>

definition AbortError :: thrown where
  "AbortError = Thrown True ''AbortError'' ''AbortError''"

definition assertSignal :: "AbortSignal \<Rightarrow> unit promise" where
  "assertSignal signal = (if aborted signal then reject AbortError else resolve ())"

definition abortable :: "AbortSignal \<Rightarrow> thrown + 'a \<Rightarrow> 'a promise" where
  "abortable signal p = await (assertSignal signal) (\<lambda>_. (p, []))"

section \<open>The stages of \<^verbatim>\<open>convert.ts\<close>\<close>

text \<open>The test of the catch clause: \<^verbatim>\<open>err instanceof Error && err.name === 'AbortError'\<close>.\<close>

definition is_AbortError :: "thrown \<Rightarrow> bool" where
  "is_AbortError err = (instanceof_Error err \<and> err_name err = ''AbortError'')"

text \<open>The body of the \<^verbatim>\<open>try\<close> block of \<^verbatim>\<open>decodeImage\<close>.\<close>

definition decodeImage_try ::
  "Env \<Rightarrow> AbortSignal \<Rightarrow> File \<Rightarrow> WorkerBridge \<Rightarrow> string \<Rightarrow> bool \<Rightarrow> ImageData promise" where
  "decodeImage_try env signal blob workerBridge sniffed canDecode =
     (if \<not> canDecode \<and> sniffed = ''image/avif'' then
        invoke (CallAvifDecode blob) (avifDecode workerBridge signal blob)
      else if \<not> canDecode \<and> sniffed = ''image/webp'' then
        invoke (CallWebpDecode blob) (webpDecode workerBridge signal blob)
      else if \<not> canDecode \<and> sniffed = ''image/jxl'' then
        invoke (CallJxlDecode blob) (jxlDecode workerBridge signal blob)
      else if \<not> canDecode \<and> sniffed = ''image/webp2'' then
        invoke (CallWp2Decode blob) (wp2Decode workerBridge signal blob)
      else if \<not> canDecode \<and> sniffed = ''image/qoi'' then
        invoke (CallQoiDecode blob) (qoiDecode workerBridge signal blob)
      else
        invoke (CallBuiltinDecode blob) (builtinDecode env signal blob))"

definition decodeImage :: "Env \<Rightarrow> AbortSignal \<Rightarrow> File \<Rightarrow> WorkerBridge \<Rightarrow> ImageData promise" where
  "decodeImage env signal blob workerBridge =
     await (assertSignal signal) (\<lambda>_.
     await (abortable signal (sniffMimeType env blob)) (\<lambda>mimeType.
     await (abortable signal (canDecodeImageType env mimeType)) (\<lambda>canDecode.
       try_catch (decodeImage_try env signal blob workerBridge mimeType canDecode)
         (\<lambda>err. if is_AbortError err then reject err else reject (Error couldnt_decode)))))"

definition preprocessImage ::
  "AbortSignal \<Rightarrow> ImageData \<Rightarrow> PreprocessorState \<Rightarrow> WorkerBridge \<Rightarrow> ImageData promise" where
  "preprocessImage signal data state workerBridge =
     await (assertSignal signal) (\<lambda>_.
       if rotate (rotate_opts state) \<noteq> 0 then
         invoke (CallRotate data (rotate_opts state))
           (rotate_cap workerBridge signal data (rotate_opts state))
       else resolve data)"

text \<open>\<open>preprocessed\<close> and \<open>decoded\<close> are the two fields of the \<^verbatim>\<open>source\<close> argument.\<close>

definition processImage ::
  "Env \<Rightarrow> AbortSignal \<Rightarrow> ImageData \<Rightarrow> ImageData \<Rightarrow> ProcessorState \<Rightarrow> WorkerBridge
    \<Rightarrow> ImageData promise" where
  "processImage env signal preprocessed decoded state workerBridge =
     await (assertSignal signal) (\<lambda>_.
     await (if enabled (resize_opts state) then
              invoke (CallResize preprocessed decoded (resize_opts state))
                (resize_cap env signal preprocessed decoded (resize_opts state) workerBridge)
            else resolve preprocessed) (\<lambda>result.
       if enabled (quantize_opts state) then
         invoke (CallQuantize result (quantize_opts state))
           (quantize_cap workerBridge signal result (quantize_opts state))
       else resolve result))"

text \<open>
  \<^verbatim>\<open>sourceFilename.replace(/\.[^.]*$/, replacement)\<close>. The search tries each
  start position from the left; the pattern matches at a position when the character
  there is a dot and no dot follows up to the end of the string. \<open>search_extension\<close>
  returns the text preceding the match and the match.
\<close>

fun search_extension :: "string \<Rightarrow> string \<Rightarrow> (string \<times> string) option" where
  "search_extension preceding [] = None"
| "search_extension preceding (c # cs) =
     (if c = CHR ''.'' \<and> CHR ''.'' \<notin> set cs then Some (preceding, c # cs)
      else search_extension (preceding @ [c]) cs)"

text \<open>
  The replacement string of \<^verbatim>\<open>String.prototype.replace\<close> is a template: \<^verbatim>\<open>$$\<close> is
  a dollar sign, \<^verbatim>\<open>$&\<close> the match, \<^verbatim>\<open>$`\<close> the text preceding the match and \<^verbatim>\<open>$'\<close> the
  text following it. The pattern has no capture group, so \<^verbatim>\<open>$1\<close> and the like stay as
  they are.
\<close>

fun getSubstitution :: "string \<Rightarrow> string \<Rightarrow> string \<Rightarrow> string \<Rightarrow> string" where
  "getSubstitution matched preceding following (c # d # rest) =
     (if c = CHR ''$'' \<and> d = CHR ''$'' then CHR ''$'' # getSubstitution matched preceding following rest
      else if c = CHR ''$'' \<and> d = CHR ''&'' then matched @ getSubstitution matched preceding following rest
      else if c = CHR ''$'' \<and> d = CHR 0x60 then preceding @ getSubstitution matched preceding following rest
      else if c = CHR ''$'' \<and> d = CHR 0x27 then following @ getSubstitution matched preceding following rest
      else c # getSubstitution matched preceding following (d # rest))"
| "getSubstitution matched preceding following cs = cs"

definition replace_extension :: "string \<Rightarrow> string \<Rightarrow> string" where
  "replace_extension sourceFilename replacement =
     (case search_extension [] sourceFilename of
        None \<Rightarrow> sourceFilename
      | Some (preceding, matched) \<Rightarrow> preceding @ getSubstitution matched preceding [] replacement)"

text \<open>Field \<open>encoder_type\<close> is \<^verbatim>\<open>EncoderState.type\<close>.\<close>

record EncoderState =
  encoder_type :: EncoderType
  options :: EncoderOptions

definition encodeImage ::
  "Env \<Rightarrow> AbortSignal \<Rightarrow> ImageData \<Rightarrow> EncoderState \<Rightarrow> string \<Rightarrow> WorkerBridge \<Rightarrow> File promise" where
  "encodeImage env signal img encodeData sourceFilename workerBridge =
     await (assertSignal signal) (\<lambda>_.
     (let codec = encoderMap env (encoder_type encodeData) in
      await (invoke (CallEncode (encoder_type encodeData) img (options encodeData))
               (encode codec signal workerBridge img (options encodeData))) (\<lambda>compressedData.
        resolve \<lparr>name = replace_extension sourceFilename (CHR ''.'' # extension (meta codec)),
                 mime = mimeType (meta codec),
                 bits = compressedData\<rparr>)))"

section \<open>The single-item pipeline\<close>

text \<open>
  The configuration \<^verbatim>\<open>convertFile\<close> resolves from its options: what the caller
  left out is taken from the codec descriptor and from the defaults of
  \<^verbatim>\<open>../feature-meta\<close>.
\<close>

definition encoderState_of :: "Env \<Rightarrow> 'a ConvertOptions_scheme \<Rightarrow> EncoderState" where
  "encoderState_of env opts =
     \<lparr>encoder_type = encoder opts,
      options = (case encoderOptions opts of
                   Some given \<Rightarrow> given
                 | None \<Rightarrow> defaultOptions (meta (encoderMap env (encoder opts))))\<rparr>"

definition preState_of :: "Env \<Rightarrow> 'a ConvertOptions_scheme \<Rightarrow> PreprocessorState" where
  "preState_of env opts =
     (case preprocessorState opts of Some given \<Rightarrow> given | None \<Rightarrow> defaultPreprocessorState env)"

definition procState_of :: "Env \<Rightarrow> 'a ConvertOptions_scheme \<Rightarrow> ProcessorState" where
  "procState_of env opts =
     (case processorState opts of Some given \<Rightarrow> given | None \<Rightarrow> defaultProcessorState env)"

text \<open>
  The signal is read once per call: a conversion sees the token either fired or not
  fired at all of its checks. A capability is free to throw the cancellation error on
  its own account, which stands for a cancellation it observes while it runs.
\<close>

definition convertFile ::
  "Env \<Rightarrow> File \<Rightarrow> 'a ConvertOptions_scheme \<Rightarrow> AbortSignal \<Rightarrow> ConvertResult promise" where
  "convertFile env file opts signal =
     (let worker = newWorkerBridge env;
          encoderState = encoderState_of env opts;
          preState = preState_of env opts;
          procState = procState_of env opts
      in
        await (decodeImage env signal file worker) (\<lambda>decoded.
        await (preprocessImage signal decoded preState worker) (\<lambda>preprocessed.
        await (processImage env signal preprocessed decoded procState worker) (\<lambda>processedImage.
        await (encodeImage env signal processedImage encoderState (name file) worker) (\<lambda>out.
          resolve \<lparr>input = file, outputFile = out, processed = Some processedImage\<rparr>)))))"

section \<open>The batch scheduler\<close>

text \<open>
  The promise returned by one call of \<^verbatim>\<open>run()\<close>: pending inside
  \<^verbatim>\<open>await convertFile(files[idx], ...)\<close>, resolved because the queue was empty at the
  loop head, or rejected by the error that left the loop. A pending worker remembers the
  state the abort signal was in when \<^verbatim>\<open>convertFile\<close> was called: the first
  \<^verbatim>\<open>assertSignal\<close> of the conversion runs in that very call, before anything else can
  happen.
\<close>

datatype worker = is_Running: Running nat AbortSignal | Resolved | Rejected thrown

text \<open>
  The variables shared by the workers. \<open>progress\<close> lists the invocations of
  \<^verbatim>\<open>opts.onProgress\<close> in order, each with its two arguments; \<open>rejection\<close> is the first
  rejection among the workers (what \<^verbatim>\<open>Promise.all\<close> rejects with); \<open>token\<close> is the state
  of the abort signal. \<open>finalized\<close> is a history variable that no other field depends
  on: the index each run of the \<^verbatim>\<open>finally\<close> block belongs to.
\<close>

record state =
  queue :: "nat list"
  results :: "ConvertResult option list"
  done_count :: nat
  progress :: "(nat \<times> nat) list"
  workers :: "worker list"
  rejection :: "thrown option"
  token :: AbortSignal
  finalized :: "nat list"

text \<open>
  \<^verbatim>\<open>results[idx] = res\<close> on a JavaScript array: a write beyond the end extends the
  array and leaves holes in between.
\<close>

definition set_slot :: "'a option list \<Rightarrow> nat \<Rightarrow> 'a \<Rightarrow> 'a option list" where
  "set_slot xs idx res =
     (if idx < length xs then xs[idx := Some res]
      else xs @ replicate (idx - length xs) None @ [Some res])"

text \<open>\<^verbatim>\<open>Math.max(1, Math.min(opts.concurrency ?? 2, 8))\<close>.\<close>

definition conc :: "BatchOptions \<Rightarrow> number" where
  "conc opts =
     Math_max (Finite 1)
       (Math_min (case concurrency opts of None \<Rightarrow> Finite 2 | Some requested \<Rightarrow> requested)
                 (Finite 8))"

text \<open>The length of \<^verbatim>\<open>Array.from({ length: Math.min(conc, total) }, ...)\<close>.\<close>

definition worker_count :: "File list \<Rightarrow> BatchOptions \<Rightarrow> nat" where
  "worker_count files opts = ToLength (Math_min (conc opts) (Finite (real (length files))))"

text \<open>
  The head of the loop of \<^verbatim>\<open>run\<close>, up to the first \<^verbatim>\<open>await\<close>: with an empty queue
  the worker's promise resolves, otherwise the worker shifts the next index off the queue,
  calls \<^verbatim>\<open>convertFile\<close> under the signal as it stands and waits for it.
\<close>

definition loop_head :: "state \<Rightarrow> worker \<times> state" where
  "loop_head st =
     (case queue st of
        [] \<Rightarrow> (Resolved, st)
      | idx # rest \<Rightarrow> (Running idx (token st), st\<lparr>queue := rest\<rparr>))"

text \<open>\<^verbatim>\<open>() => run()\<close> as called by \<^verbatim>\<open>Array.from\<close>: a new worker enters the loop.\<close>

definition spawn :: "state \<Rightarrow> state" where
  "spawn st = (case loop_head st of (w, st') \<Rightarrow> st'\<lparr>workers := workers st' @ [w]\<rparr>)"

definition start :: "File list \<Rightarrow> BatchOptions \<Rightarrow> AbortSignal \<Rightarrow> state" where
  "start files opts signal =
     (spawn ^^ worker_count files opts)
       \<lparr>queue = [0..<length files], results = [], done_count = 0, progress = [],
        workers = [], rejection = None, token = signal, finalized = []\<rparr>"

text \<open>
  \<^verbatim>\<open>opts.onProgress?.(done, total)\<close>: what the call throws, if anything, and the
  invocation it makes, if any.
\<close>

definition report :: "BatchOptions \<Rightarrow> nat \<Rightarrow> nat \<Rightarrow> thrown option \<times> (nat \<times> nat) list" where
  "report opts d n =
     (case onProgress opts of
        None \<Rightarrow> (None, [])
      | Some callback \<Rightarrow> (callback d n, [(d, n)]))"

text \<open>
  The \<^verbatim>\<open>finally\<close> block of the item \<open>idx\<close>, in a batch of \<open>n\<close> files: the state it
  leaves and what the callback threw in it.
\<close>

definition finally_block :: "BatchOptions \<Rightarrow> nat \<Rightarrow> nat \<Rightarrow> state \<Rightarrow> thrown option \<times> state" where
  "finally_block opts n idx st =
     (case report opts (done_count st + 1) n of
        (thrown_by_callback, invocations) \<Rightarrow>
          (thrown_by_callback,
           st\<lparr>done_count := done_count st + 1,
              progress := progress st @ invocations,
              finalized := finalized st @ [idx]\<rparr>))"

text \<open>
  \<^verbatim>\<open>files[idx]\<close> and the call of \<^verbatim>\<open>convertFile\<close> on it. An index outside the array
  reads \<^verbatim>\<open>undefined\<close>, which \<^verbatim>\<open>convertFile\<close> cannot dereference; the queue never
  holds such an index (lemma \<open>accountedD\<close> below), so the value thrown there plays no
  part.
\<close>

definition convert_item ::
  "Env \<Rightarrow> File list \<Rightarrow> BatchOptions \<Rightarrow> AbortSignal \<Rightarrow> nat \<Rightarrow> thrown + ConvertResult" where
  "convert_item env files opts signal idx =
     (if idx < length files then fst (convertFile env (files ! idx) opts signal)
      else Inl (Thrown True ''TypeError'' ''file is undefined''))"

text \<open>
  How a conversion ends when the abort signal fires while it is pending. That depends on
  how far the conversion has come and on the capability it is waiting for: past its last
  check of the signal it completes as if nothing had happened; otherwise it throws, the
  cancellation error from \<^verbatim>\<open>assertSignal\<close> or \<^verbatim>\<open>abortable\<close>, or whatever the
  capability in flight throws on being aborted.
\<close>

datatype reaction = Completes | Throws thrown

text \<open>
  The outcome of the conversion of item \<open>idx\<close>, called when the signal was in state
  \<open>seen\<close>. A signal that had fired by then makes the first \<^verbatim>\<open>assertSignal\<close> throw; a
  signal that has not fired until the conversion settles leaves it undisturbed; a signal
  that fired in between is reacted to.
\<close>

definition outcome ::
  "Env \<Rightarrow> File list \<Rightarrow> BatchOptions \<Rightarrow> state \<Rightarrow> nat \<Rightarrow> AbortSignal \<Rightarrow> reaction
    \<Rightarrow> thrown + ConvertResult" where
  "outcome env files opts st idx seen how =
     (if \<not> aborted seen \<and> aborted (token st) then
        (case how of
           Completes \<Rightarrow> convert_item env files opts seen idx
         | Throws err \<Rightarrow> Inl err)
      else convert_item env files opts seen idx)"

text \<open>A rejected worker; \<^verbatim>\<open>Promise.all\<close> keeps the first rejection.\<close>

definition reject_worker :: "nat \<Rightarrow> thrown \<Rightarrow> state \<Rightarrow> state" where
  "reject_worker w err st =
     st\<lparr>workers := (workers st)[w := Rejected err],
        rejection := (case rejection st of None \<Rightarrow> Some err | Some first \<Rightarrow> Some first)\<rparr>"

text \<open>
  The continuation of worker \<open>w\<close> when its pending \<^verbatim>\<open>await convertFile(...)\<close> settles.
  On success the result is stored at the item's index and the \<^verbatim>\<open>finally\<close> block runs;
  then the worker is back at the head of its loop, unless the callback threw, which
  rejects the worker's promise. On failure the \<^verbatim>\<open>finally\<close> block runs and the error
  leaves \<^verbatim>\<open>run\<close>, rejecting the worker's promise; an error thrown by the callback
  replaces it. A worker that is not pending has nothing to continue.
\<close>

definition settle ::
  "Env \<Rightarrow> File list \<Rightarrow> BatchOptions \<Rightarrow> state \<Rightarrow> nat \<Rightarrow> reaction \<Rightarrow> state" where
  "settle env files opts st w how =
     (if w < length (workers st) then
        (case workers st ! w of
           Running idx seen \<Rightarrow>
             (case outcome env files opts st idx seen how of
                Inr res \<Rightarrow>
                  (case finally_block opts (length files) idx
                          (st\<lparr>results := set_slot (results st) idx res\<rparr>) of
                     (None, st') \<Rightarrow>
                       (case loop_head st' of
                          (continued, st'') \<Rightarrow> st''\<lparr>workers := (workers st'')[w := continued]\<rparr>)
                   | (Some thrown_by_callback, st') \<Rightarrow> reject_worker w thrown_by_callback st')
              | Inl err \<Rightarrow>
                  (case finally_block opts (length files) idx st of
                     (None, st') \<Rightarrow> reject_worker w err st'
                   | (Some thrown_by_callback, st') \<Rightarrow> reject_worker w thrown_by_callback st'))
         | _ \<Rightarrow> st)
      else st)"

text \<open>
  What happens while the batch runs: the pending conversion of a worker settles, or the
  abort signal fires. A schedule is any list of such events; an event naming a worker
  that is not pending changes nothing.
\<close>

datatype event = Settle nat reaction | Abort

fun step :: "Env \<Rightarrow> File list \<Rightarrow> BatchOptions \<Rightarrow> state \<Rightarrow> event \<Rightarrow> state" where
  "step env files opts st (Settle w how) = settle env files opts st w how"
| "step env files opts st Abort = st\<lparr>token := \<lparr>aborted = True\<rparr>\<rparr>"

definition run :: "Env \<Rightarrow> File list \<Rightarrow> BatchOptions \<Rightarrow> event list \<Rightarrow> state \<Rightarrow> state" where
  "run env files opts schedule st = foldl (step env files opts) st schedule"

text \<open>
  Every pending conversion settles in the end. After the events of a schedule, the
  conversions still pending settle one at a time (the pending worker with the least
  number first, with the cancellation error if the signal fired on it) until no worker
  is pending.
\<close>

fun first_pending :: "worker list \<Rightarrow> nat option" where
  "first_pending [] = None"
| "first_pending (Running idx seen # ws) = Some 0"
| "first_pending (w # ws) = map_option Suc (first_pending ws)"

definition pending_count :: "worker list \<Rightarrow> nat" where
  "pending_count ws = length (filter is_Running ws)"

definition weight :: "state \<Rightarrow> nat" where
  "weight st = length (queue st) + pending_count (workers st)"

lemma first_pending_Some:
  "first_pending ws = Some w \<Longrightarrow> w < length ws \<and> is_Running (ws ! w)"
  by (induction ws arbitrary: w rule: first_pending.induct) auto

lemma first_pending_None:
  "first_pending ws = None \<longleftrightarrow> (\<forall>w \<in> set ws. \<not> is_Running w)"
  by (induction ws rule: first_pending.induct) auto

lemma pending_count_pos:
  "w < length ws \<Longrightarrow> is_Running (ws ! w) \<Longrightarrow> 0 < pending_count ws"
  unfolding pending_count_def by (metis filter_empty_conv length_greater_0_conv nth_mem)

lemma pending_count_update:
  "w < length ws \<Longrightarrow> is_Running (ws ! w) \<Longrightarrow>
   pending_count (ws[w := x]) = (if is_Running x then pending_count ws else pending_count ws - 1)"
proof (induction ws arbitrary: w)
  case Nil
  then show ?case by simp
next
  case (Cons a ws)
  show ?case
  proof (cases w)
    case 0
    with Cons.prems show ?thesis by (simp add: pending_count_def)
  next
    case (Suc v)
    with Cons.prems have v: "v < length ws" "is_Running (ws ! v)" by simp_all
    from pending_count_pos[OF v] Cons.IH[OF v] Suc show ?thesis
      by (auto simp: pending_count_def)
  qed
qed

lemma settle_weight:
  assumes "w < length (workers st)" and "is_Running (workers st ! w)"
  shows "weight (settle env files opts st w how) < weight st"
proof -
  from assms obtain idx seen where "workers st ! w = Running idx seen"
    by (cases "workers st ! w") auto
  with assms pending_count_pos[OF assms] show ?thesis
    by (auto simp: settle_def weight_def loop_head_def finally_block_def reject_worker_def
             pending_count_update split: sum.splits list.splits prod.splits option.splits)
qed

function drain :: "Env \<Rightarrow> File list \<Rightarrow> BatchOptions \<Rightarrow> state \<Rightarrow> state" where
  "drain env files opts st =
     (case first_pending (workers st) of
        None \<Rightarrow> st
      | Some w \<Rightarrow> drain env files opts (settle env files opts st w (Throws AbortError)))"
  by pat_completeness auto
termination
  by (relation "measure (\<lambda>(env, files, opts, st). weight st)")
     (auto dest!: first_pending_Some intro: settle_weight)

declare drain.simps [simp del]

text \<open>
  \<^verbatim>\<open>convertFiles\<close>: the workers are spawned, the events of the schedule happen, the
  remaining conversions settle. The state it ends in holds what the caller observes.
\<close>

definition convertFiles ::
  "Env \<Rightarrow> File list \<Rightarrow> BatchOptions \<Rightarrow> AbortSignal \<Rightarrow> event list \<Rightarrow> state" where
  "convertFiles env files opts signal schedule =
     drain env files opts (run env files opts schedule (start files opts signal))"

text \<open>
  \<^verbatim>\<open>await Promise.all(workers); return results\<close>: the call rejects with the first
  rejection of a worker, and returns the array when every worker has resolved (at once
  when there is no worker). The workers that are pending when the call rejects are not
  stopped; the state \<^verbatim>\<open>convertFiles\<close> ends in is the one they leave behind when the
  last of them has settled.
\<close>

definition returned :: "state \<Rightarrow> thrown + ConvertResult option list" where
  "returned st = (case rejection st of Some err \<Rightarrow> Inl err | None \<Rightarrow> Inr (results st))"


section \<open>Bookkeeping of a run\<close>

text \<open>The items the workers are converting at the moment.\<close>

fun items_of :: "worker list \<Rightarrow> nat list" where
  "items_of [] = []"
| "items_of (Running idx seen # ws) = idx # items_of ws"
| "items_of (w # ws) = items_of ws"

text \<open>
  Every index of the batch is in exactly one place: finalized, in conversion, or still
  in the queue.
\<close>

definition accounted :: "nat \<Rightarrow> state \<Rightarrow> bool" where
  "accounted n st \<longleftrightarrow>
     mset (finalized st) + mset (items_of (workers st)) + mset (queue st) = mset [0..<n]"

text \<open>
  The counter and the invocations of the callback follow the finalized items: the
  invocation number \<open>k + 1\<close> carries \<open>done = k + 1\<close> and the size of the batch.
\<close>

definition counted :: "BatchOptions \<Rightarrow> nat \<Rightarrow> state \<Rightarrow> bool" where
  "counted opts n st \<longleftrightarrow>
     done_count st = length (finalized st) \<and>
     progress st =
       (case onProgress opts of
          None \<Rightarrow> []
        | Some callback \<Rightarrow> map (\<lambda>k. (Suc k, n)) [0..<length (finalized st)])"

text \<open>
  What a worker is rejected with when its conversion ends in the cancellation error and
  its \<^verbatim>\<open>finally\<close> block is the first to run.
\<close>

definition first_cancellation :: "BatchOptions \<Rightarrow> nat \<Rightarrow> thrown" where
  "first_cancellation opts n =
     (case fst (report opts 1 n) of
        None \<Rightarrow> AbortError
      | Some thrown_by_callback \<Rightarrow> thrown_by_callback)"

text \<open>
  A run whose signal had fired before the call: no result is stored, every worker is
  pending on a conversion that was called under the fired signal or has been rejected,
  and the call is rejected as soon as one \<^verbatim>\<open>finally\<close> block has run.
\<close>

definition cancelled :: "BatchOptions \<Rightarrow> nat \<Rightarrow> state \<Rightarrow> bool" where
  "cancelled opts n st \<longleftrightarrow>
     aborted (token st) \<and> results st = [] \<and>
     (\<forall>w \<in> set (workers st). case w of
        Running idx seen \<Rightarrow> aborted seen | Resolved \<Rightarrow> False | Rejected err \<Rightarrow> True) \<and>
     rejection st = (if finalized st = [] then None else Some (first_cancellation opts n)) \<and>
     length (finalized st) + pending_count (workers st) = length (workers st)"
section \<open>Example inputs\<close>

text \<open>
  A capability provider for the concrete runs below. Its capabilities honour the abort
  signal; a file without bytes cannot be decoded, a file without a type cannot be
  sniffed, the type \<^verbatim>\<open>application/octet-stream\<close> cannot be probed, a rotation by 45
  degrees and a resize without settings are refused, and the encoders fail on an image
  that consists of one zero.
\<close>

definition honour :: "AbortSignal \<Rightarrow> thrown + 'a \<Rightarrow> thrown + 'a" where
  "honour signal r = (if aborted signal then Inl AbortError else r)"

definition decode_bits :: "File \<Rightarrow> thrown + ImageData" where
  "decode_bits f =
     (case bits f of
        [] \<Rightarrow> Inl (Error ''empty file'')
      | b # bs \<Rightarrow> Inr \<lparr>width = 1, height = length (b # bs), pixel_data = b # bs\<rparr>)"

definition example_bridge :: WorkerBridge where
  "example_bridge =
     \<lparr>avifDecode = (\<lambda>signal f. honour signal (decode_bits f)),
      webpDecode = (\<lambda>signal f. honour signal (decode_bits f)),
      jxlDecode = (\<lambda>signal f. honour signal (decode_bits f)),
      wp2Decode = (\<lambda>signal f. honour signal (decode_bits f)),
      qoiDecode = (\<lambda>signal f. honour signal (decode_bits f)),
      rotate_cap = (\<lambda>signal img r.
        honour signal (if rotate r = 45 then Inl (Error ''unsupported angle'')
                       else Inr (img\<lparr>width := height img, height := width img\<rparr>))),
      quantize_cap = (\<lambda>signal img q.
        honour signal (Inr (img\<lparr>pixel_data := map (\<lambda>p. p div 2) (pixel_data img)\<rparr>)))\<rparr>"

definition example_encoder :: "string \<Rightarrow> string \<Rightarrow> Encoder" where
  "example_encoder m ext =
     \<lparr>meta = \<lparr>mimeType = m, extension = ext, defaultOptions = [(''quality'', 75)]\<rparr>,
      encode = (\<lambda>signal wb img opts.
        honour signal (if pixel_data img = [0] then Inl (Error ''encoder out of memory'')
                       else Inr (pixel_data img)))\<rparr>"

definition example_env :: Env where
  "example_env =
     \<lparr>newWorkerBridge = example_bridge,
      encoderMap = (\<lambda>t. case t of
                       mozJPEG \<Rightarrow> example_encoder ''image/jpeg'' ''jpg''
                     | webP \<Rightarrow> example_encoder ''image/webp'' ''webp''
                     | avif \<Rightarrow> example_encoder ''image/avif'' ''avif''),
      defaultPreprocessorState = \<lparr>rotate_opts = \<lparr>rotate = 0\<rparr>\<rparr>,
      defaultProcessorState =
        \<lparr>resize_opts = \<lparr>enabled = False, settings = []\<rparr>,
         quantize_opts = \<lparr>enabled = False, settings = []\<rparr>\<rparr>,
      sniffMimeType = (\<lambda>f. if mime f = [] then Inl (Error ''unreadable'') else Inr (mime f)),
      canDecodeImageType = (\<lambda>m. if m = ''application/octet-stream'' then Inl (Error ''probe failed'')
                                 else Inr (m = ''image/png'')),
      builtinDecode = (\<lambda>signal f. honour signal (decode_bits f)),
      resize_cap = (\<lambda>signal pre dec r wb.
        honour signal (if settings r = [] then Inl (Error ''no target size'')
                       else Inr (pre\<lparr>width := 2 * width pre\<rparr>)))\<rparr>"

definition live :: AbortSignal where
  "live = \<lparr>aborted = False\<rparr>"

definition fired :: AbortSignal where
  "fired = \<lparr>aborted = True\<rparr>"

definition photo :: File where
  "photo = \<lparr>name = ''holiday.photo.png'', mime = ''image/png'', bits = [6, 8]\<rparr>"

definition broken :: File where
  "broken = \<lparr>name = ''broken.png'', mime = ''image/png'', bits = []\<rparr>"

definition unreadable :: File where
  "unreadable = \<lparr>name = ''gone.png'', mime = [], bits = [1]\<rparr>"

definition black :: File where
  "black = \<lparr>name = ''black.png'', mime = ''image/png'', bits = [0]\<rparr>"

definition logo :: File where
  "logo = \<lparr>name = ''logo.svg'', mime = ''image/svg+xml'', bits = [60, 115, 118, 103]\<rparr>"

definition portrait :: File where
  "portrait = \<lparr>name = ''portrait.png'', mime = ''image/png'', bits = [9]\<rparr>"

text \<open>What the example provider makes of a PNG file with the default options.\<close>

definition converted :: "File \<Rightarrow> ConvertResult" where
  "converted f =
     \<lparr>input = f,
      outputFile = \<lparr>name = replace_extension (name f) ''.jpg'', mime = ''image/jpeg'', bits = bits f\<rparr>,
      processed = Some \<lparr>width = 1, height = length (bits f), pixel_data = bits f\<rparr>\<rparr>"

definition pixels :: ImageData where
  "pixels = \<lparr>width = 1, height = 2, pixel_data = [6, 8]\<rparr>"

definition mystery :: File where
  "mystery = \<lparr>name = ''mystery.bin'', mime = ''application/octet-stream'', bits = [1]\<rparr>"

definition tilted :: BatchOptions where
  "tilted =
     \<lparr>encoder = mozJPEG, encoderOptions = None,
      preprocessorState = Some \<lparr>rotate_opts = \<lparr>rotate = 45\<rparr>\<rparr>,
      processorState = None, concurrency = None, onProgress = None\<rparr>"

definition unsized :: BatchOptions where
  "unsized =
     \<lparr>encoder = mozJPEG, encoderOptions = None, preprocessorState = None,
      processorState = Some \<lparr>resize_opts = \<lparr>enabled = True, settings = []\<rparr>,
                             quantize_opts = \<lparr>enabled = False, settings = []\<rparr>\<rparr>,
      concurrency = None, onProgress = None\<rparr>"

definition both_enabled :: ProcessorState where
  "both_enabled =
     \<lparr>resize_opts = \<lparr>enabled = True, settings = [(''width'', 2)]\<rparr>,
      quantize_opts = \<lparr>enabled = True, settings = [(''numColors'', 2)]\<rparr>\<rparr>"

text \<open>
  The options of the example runs: the default pipeline, a requested concurrency and a
  progress callback that returns. \<open>example_options\<close> takes an integer request,
  \<open>requesting\<close> any number.
\<close>

definition example_options :: "int option \<Rightarrow> BatchOptions" where
  "example_options requested =
     \<lparr>encoder = mozJPEG, encoderOptions = None, preprocessorState = None,
      processorState = None,
      concurrency = map_option (\<lambda>k. Finite (of_int k)) requested,
      onProgress = Some (\<lambda>d n. None)\<rparr>"

definition requesting :: "number \<Rightarrow> BatchOptions" where
  "requesting r = (example_options None)\<lparr>concurrency := Some r\<rparr>"

section \<open>Async values: basic facts\<close>

lemma await_Inl [simp]: "await (Inl e, t) k = (Inl e, t)"
  by (simp add: await_def)

lemma await_Inr [simp]: "await (Inr x, t) k = (fst (k x), t @ snd (k x))"
  by (simp add: await_def split: prod.splits)

lemma await_pair:
  "await (r, t) k = (case r of Inl e \<Rightarrow> (Inl e, t) | Inr x \<Rightarrow> (fst (k x), t @ snd (k x)))"
  by (cases r) simp_all

lemma fst_await: "fst (await p k) = (case fst p of Inl e \<Rightarrow> Inl e | Inr x \<Rightarrow> fst (k x))"
  by (cases p) (simp add: await_pair split: sum.splits)

lemma try_catch_eq:
  "try_catch p h =
     (case fst p of Inl e \<Rightarrow> (fst (h e), snd p @ snd (h e)) | Inr x \<Rightarrow> (Inr x, snd p))"
  by (cases p) (auto simp: try_catch_def split: sum.splits prod.splits)

lemma assertSignal_simps [simp]:
  "aborted signal \<Longrightarrow> assertSignal signal = (Inl AbortError, [])"
  "\<not> aborted signal \<Longrightarrow> assertSignal signal = (Inr (), [])"
  by (simp_all add: assertSignal_def reject_def resolve_def)

lemma abortable_simps [simp]:
  "aborted signal \<Longrightarrow> abortable signal p = (Inl AbortError, [])"
  "\<not> aborted signal \<Longrightarrow> abortable signal p = (p, [])"
  by (simp_all add: abortable_def)

lemma signal_simps [simp]: "\<not> aborted live" "aborted fired"
  by (simp_all add: live_def fired_def)

section \<open>Preprocess\<close>

text \<open>
  C9. With a rotation angle of 0 the Preprocess stage invokes no capability and returns
  the image it was given, unchanged. (The stage checks the abort signal first, as every
  stage does: with a fired signal it ends in the cancellation error, again without
  invoking a capability.)
\<close>

theorem preprocessImage_identity:
  assumes "rotate (rotate_opts state) = 0"
  shows "preprocessImage signal data state workerBridge =
           ((if aborted signal then Inl AbortError else Inr data), [])"
  using assms by (cases "aborted signal") (simp_all add: preprocessImage_def resolve_def)

theorem preprocessImage_identity_witness:
  "preprocessImage live pixels \<lparr>rotate_opts = \<lparr>rotate = 0\<rparr>\<rparr> example_bridge = (Inr pixels, [])"
  using preprocessImage_identity[of "\<lparr>rotate_opts = \<lparr>rotate = 0\<rparr>\<rparr>" live pixels example_bridge]
  by simp


section \<open>Process\<close>

text \<open>
  C8. The Process stage applies resize and quantize according to their own enabled
  flags. Resize, when enabled, is invoked first and on the preprocessed image; quantize,
  when enabled, is invoked after it and receives the resized buffer (the preprocessed
  image when resize is disabled). The stage has no parameter that could change this
  order. When an enabled resize throws, quantize is not invoked; with a fired signal
  neither is.
\<close>

theorem processImage_order:
  "(\<not> aborted signal \<and>
    (enabled (resize_opts state) \<longrightarrow>
       resize_cap env signal preprocessed decoded (resize_opts state) workerBridge = Inr resized) \<longrightarrow>
      processImage env signal preprocessed decoded state workerBridge =
        (let buffer = (if enabled (resize_opts state) then resized else preprocessed) in
           ((if enabled (quantize_opts state)
             then quantize_cap workerBridge signal buffer (quantize_opts state)
             else Inr buffer),
            (if enabled (resize_opts state)
             then [CallResize preprocessed decoded (resize_opts state)] else []) @
            (if enabled (quantize_opts state)
             then [CallQuantize buffer (quantize_opts state)] else [])))) \<and>
   (\<not> aborted signal \<and> enabled (resize_opts state) \<and>
    resize_cap env signal preprocessed decoded (resize_opts state) workerBridge = Inl err \<longrightarrow>
      processImage env signal preprocessed decoded state workerBridge =
        (Inl err, [CallResize preprocessed decoded (resize_opts state)])) \<and>
   (aborted signal \<longrightarrow>
      processImage env signal preprocessed decoded state workerBridge = (Inl AbortError, []))"
  by (simp add: processImage_def invoke_def resolve_def Let_def)

theorem processImage_order_witness:
  "processImage example_env live pixels pixels both_enabled example_bridge =
     (Inr \<lparr>width = 2, height = 2, pixel_data = [3, 4]\<rparr>,
      [CallResize pixels pixels \<lparr>enabled = True, settings = [(''width'', 2)]\<rparr>,
       CallQuantize \<lparr>width = 2, height = 2, pixel_data = [6, 8]\<rparr>
         \<lparr>enabled = True, settings = [(''numColors'', 2)]\<rparr>]) \<and>
   processImage example_env live pixels pixels (procState_of example_env unsized) example_bridge =
     (Inl (Error ''no target size''),
      [CallResize pixels pixels \<lparr>enabled = True, settings = []\<rparr>]) \<and>
   processImage example_env fired pixels pixels both_enabled example_bridge = (Inl AbortError, [])"
proof -
  have resized:
    "resize_cap example_env live pixels pixels (resize_opts both_enabled) example_bridge
       = Inr \<lparr>width = 2, height = 2, pixel_data = [6, 8]\<rparr>"
    by (simp add: example_env_def honour_def pixels_def both_enabled_def)
  have "processImage example_env live pixels pixels both_enabled example_bridge =
     (Inr \<lparr>width = 2, height = 2, pixel_data = [3, 4]\<rparr>,
      [CallResize pixels pixels \<lparr>enabled = True, settings = [(''width'', 2)]\<rparr>,
       CallQuantize \<lparr>width = 2, height = 2, pixel_data = [6, 8]\<rparr>
         \<lparr>enabled = True, settings = [(''numColors'', 2)]\<rparr>])"
    using processImage_order[where signal = live and state = both_enabled
        and env = example_env and preprocessed = pixels and decoded = pixels
        and workerBridge = example_bridge
        and resized = "\<lparr>width = 2, height = 2, pixel_data = [6, 8]\<rparr>"] resized
    by (simp add: both_enabled_def example_bridge_def honour_def)
  moreover
  have refused:
    "resize_cap example_env live pixels pixels (resize_opts (procState_of example_env unsized))
       example_bridge = Inl (Error ''no target size'')"
    and on: "enabled (resize_opts (procState_of example_env unsized))"
    and opts: "resize_opts (procState_of example_env unsized) = \<lparr>enabled = True, settings = []\<rparr>"
    by (simp_all add: example_env_def honour_def procState_of_def unsized_def)
  have "processImage example_env live pixels pixels (procState_of example_env unsized)
      example_bridge =
     (Inl (Error ''no target size''),
      [CallResize pixels pixels \<lparr>enabled = True, settings = []\<rparr>])"
    using processImage_order[where signal = live and state = "procState_of example_env unsized"
        and env = example_env and preprocessed = pixels and decoded = pixels
        and workerBridge = example_bridge and err = "Error ''no target size''"] refused on
    by (simp add: opts)
  moreover
  have "processImage example_env fired pixels pixels both_enabled example_bridge
      = (Inl AbortError, [])"
    using processImage_order[where signal = fired and state = both_enabled
        and env = example_env and preprocessed = pixels and decoded = pixels
        and workerBridge = example_bridge]
    by simp
  ultimately show ?thesis by simp
qed

section \<open>Encode\<close>

lemma search_extension_None:
  "CHR ''.'' \<notin> set cs \<Longrightarrow> search_extension pre cs = None"
  by (induction cs arbitrary: pre) auto

lemma search_extension_Some:
  "CHR ''.'' \<in> set cs \<Longrightarrow>
   \<exists>stem old. cs = stem @ CHR ''.'' # old \<and> CHR ''.'' \<notin> set old \<and>
     search_extension pre cs = Some (pre @ stem, CHR ''.'' # old)"
proof (induction cs arbitrary: pre)
  case Nil
  then show ?case by simp
next
  case (Cons c cs)
  show ?case
  proof (cases "c = CHR ''.'' \<and> CHR ''.'' \<notin> set cs")
    case True
    then show ?thesis by (intro exI[of _ "[]"] exI[of _ cs]) simp
  next
    case False
    with Cons.prems have "CHR ''.'' \<in> set cs" by auto
    from Cons.IH[OF this, of "pre @ [c]"] obtain stem old where
      "cs = stem @ CHR ''.'' # old" "CHR ''.'' \<notin> set old"
      "search_extension (pre @ [c]) cs = Some ((pre @ [c]) @ stem, CHR ''.'' # old)" by blast
    with False show ?thesis
      by (intro exI[of _ "c # stem"] exI[of _ old]) auto
  qed
qed

lemma getSubstitution_plain:
  "CHR ''$'' \<notin> set r \<Longrightarrow> getSubstitution m p f r = r"
  by (induction m p f r rule: getSubstitution.induct) auto

lemma replace_extension_no_dot:
  "CHR ''.'' \<notin> set n \<Longrightarrow> replace_extension n r = n"
  by (simp add: replace_extension_def search_extension_None)

lemma replace_extension_dot:
  assumes "CHR ''.'' \<in> set n" and "CHR ''$'' \<notin> set ext"
  shows "\<exists>stem old. n = stem @ CHR ''.'' # old \<and> CHR ''.'' \<notin> set old \<and>
           replace_extension n (CHR ''.'' # ext) = stem @ CHR ''.'' # ext"
proof -
  from search_extension_Some[OF assms(1), of "[]"] obtain stem old where
    *: "n = stem @ CHR ''.'' # old" "CHR ''.'' \<notin> set old"
    "search_extension [] n = Some (stem, CHR ''.'' # old)" by auto
  from assms(2) have "getSubstitution (CHR ''.'' # old) stem [] (CHR ''.'' # ext) = CHR ''.'' # ext"
    by (intro getSubstitution_plain) simp
  with * show ?thesis unfolding replace_extension_def by auto
qed

lemma encodeImage_eq:
  "encodeImage env signal img encodeData sourceFilename workerBridge =
     (if aborted signal then (Inl AbortError, [])
      else
        ((case encode (encoderMap env (encoder_type encodeData)) signal workerBridge img
                 (options encodeData) of
            Inl err \<Rightarrow> Inl err
          | Inr compressedData \<Rightarrow>
              Inr \<lparr>name = replace_extension sourceFilename
                            (CHR ''.'' # extension (meta (encoderMap env (encoder_type encodeData)))),
                   mime = mimeType (meta (encoderMap env (encoder_type encodeData))),
                   bits = compressedData\<rparr>),
         [CallEncode (encoder_type encodeData) img (options encodeData)]))"
  by (simp add: encodeImage_def invoke_def resolve_def Let_def await_pair split: sum.splits)

lemma encodeImage_name:
  assumes "fst (encodeImage env signal img encodeData sourceFilename workerBridge) = Inr out"
  shows "name out = replace_extension sourceFilename
           (CHR ''.'' # extension (meta (encoderMap env (encoder_type encodeData))))"
  using assms by (auto simp: encodeImage_eq split: if_splits sum.splits)

text \<open>
  C10. The name of the file the Encode stage produces: a source name without a dot is
  kept as it is, with no extension appended; in a source name with a dot, the last dot
  and what follows it are replaced by a dot and the codec's extension. (The extension is
  the one of the codec descriptor, which holds no dollar sign: \<^verbatim>\<open>replace\<close> reads a
  dollar sign in the replacement as a pattern.)
\<close>

theorem encodeImage_filename:
  assumes "fst (encodeImage env signal img encodeData sourceFilename workerBridge) = Inr out"
  shows "(CHR ''.'' \<notin> set sourceFilename \<longrightarrow> name out = sourceFilename) \<and>
         (CHR ''.'' \<in> set sourceFilename \<and>
          CHR ''$'' \<notin> set (extension (meta (encoderMap env (encoder_type encodeData)))) \<longrightarrow>
            (\<exists>stem old. sourceFilename = stem @ CHR ''.'' # old \<and> CHR ''.'' \<notin> set old \<and>
               name out = stem @ CHR ''.'' #
                 extension (meta (encoderMap env (encoder_type encodeData)))))"
  using encodeImage_name[OF assms] replace_extension_dot[of sourceFilename]
  by (auto simp: replace_extension_no_dot)

theorem encodeImage_filename_witness:
  "(\<exists>out. fst (encodeImage example_env live pixels (encoderState_of example_env (example_options None))
                 ''README'' example_bridge) = Inr out \<and> name out = ''README'') \<and>
   (\<exists>out stem old.
      fst (encodeImage example_env live pixels (encoderState_of example_env (example_options None))
             ''holiday.photo.png'' example_bridge) = Inr out \<and>
      ''holiday.photo.png'' = stem @ CHR ''.'' # old \<and> CHR ''.'' \<notin> set old \<and>
      name out = stem @ ''.jpg'')"
proof -
  let ?st = "encoderState_of example_env (example_options None)"
  have ext: "extension (meta (encoderMap example_env (encoder_type ?st))) = ''jpg''"
    by (simp add: encoderState_of_def example_options_def example_env_def example_encoder_def)
  have enc: "encode (encoderMap example_env (encoder_type ?st)) live example_bridge pixels (options ?st)
      = Inr [6, 8]"
    by (simp add: encoderState_of_def example_options_def example_env_def example_encoder_def
          honour_def pixels_def)
  obtain out1 where out1:
    "fst (encodeImage example_env live pixels ?st ''README'' example_bridge) = Inr out1"
    by (simp add: encodeImage_eq enc)
  obtain out2 where out2:
    "fst (encodeImage example_env live pixels ?st ''holiday.photo.png'' example_bridge) = Inr out2"
    by (simp add: encodeImage_eq enc)
  from encodeImage_filename[OF out1] have "name out1 = ''README''" by simp
  moreover from encodeImage_filename[OF out2] ext
  have "\<exists>stem old. ''holiday.photo.png'' = stem @ CHR ''.'' # old \<and> CHR ''.'' \<notin> set old \<and>
      name out2 = stem @ ''.jpg''" by simp
  ultimately show ?thesis using out1 out2 by blast
qed

section \<open>Decode\<close>

lemma decodeImage_eq:
  "decodeImage env signal blob workerBridge =
     (if aborted signal then (Inl AbortError, [])
      else case sniffMimeType env blob of
        Inl err \<Rightarrow> (Inl err, [])
      | Inr sniffed \<Rightarrow>
          (case canDecodeImageType env sniffed of
             Inl err \<Rightarrow> (Inl err, [])
           | Inr canDecode \<Rightarrow>
               ((case fst (decodeImage_try env signal blob workerBridge sniffed canDecode) of
                   Inl err \<Rightarrow> Inl (if is_AbortError err then err else Error couldnt_decode)
                 | Inr decoded \<Rightarrow> Inr decoded),
                snd (decodeImage_try env signal blob workerBridge sniffed canDecode))))"
  by (simp add: decodeImage_def try_catch_eq await_pair reject_def split: sum.splits)

text \<open>
  C7, as the code behaves. For a file sniffed as \<^verbatim>\<open>image/svg+xml\<close>, whether or not
  the browser can decode that type, \<^verbatim>\<open>decodeImage\<close> of \<^verbatim>\<open>convert.ts\<close> invokes one
  capability, the built-in decoder, and hands it the file as it was given: the document
  is not parsed, no width or height is injected, and nothing is rasterized from a
  normalized copy.
\<close>

theorem decodeImage_svg_as_given:
  assumes "\<not> aborted signal"
    and "sniffMimeType env blob = Inr ''image/svg+xml''"
    and "canDecodeImageType env ''image/svg+xml'' = Inr canDecode"
  shows "decodeImage env signal blob workerBridge =
           ((case builtinDecode env signal blob of
               Inl err \<Rightarrow> Inl (if is_AbortError err then err else Error couldnt_decode)
             | Inr decoded \<Rightarrow> Inr decoded),
            [CallBuiltinDecode blob])"
  using assms by (simp add: decodeImage_eq decodeImage_try_def invoke_def)

theorem decodeImage_svg_as_given_witness:
  "decodeImage example_env live logo example_bridge =
     (Inr \<lparr>width = 1, height = 4, pixel_data = [60, 115, 118, 103]\<rparr>, [CallBuiltinDecode logo])"
proof -
  have sniffed: "sniffMimeType example_env logo = Inr ''image/svg+xml''"
    by (simp add: example_env_def logo_def)
  have probed: "canDecodeImageType example_env ''image/svg+xml'' = Inr False"
    by (simp add: example_env_def)
  have "builtinDecode example_env live logo
      = Inr \<lparr>width = 1, height = 4, pixel_data = [60, 115, 118, 103]\<rparr>"
    by (simp add: example_env_def honour_def decode_bits_def logo_def)
  with decodeImage_svg_as_given[OF _ sniffed probed, of live example_bridge]
  show ?thesis by simp
qed

section \<open>The single-item pipeline: how errors surface\<close>

lemma fst_convertFile:
  "fst (convertFile env file opts signal) =
     (case fst (decodeImage env signal file (newWorkerBridge env)) of
        Inl err \<Rightarrow> Inl err
      | Inr decoded \<Rightarrow>
      (case fst (preprocessImage signal decoded (preState_of env opts) (newWorkerBridge env)) of
        Inl err \<Rightarrow> Inl err
      | Inr preprocessed \<Rightarrow>
      (case fst (processImage env signal preprocessed decoded (procState_of env opts)
                   (newWorkerBridge env)) of
        Inl err \<Rightarrow> Inl err
      | Inr processedImage \<Rightarrow>
      (case fst (encodeImage env signal processedImage (encoderState_of env opts) (name file)
                   (newWorkerBridge env)) of
        Inl err \<Rightarrow> Inl err
      | Inr out \<Rightarrow> Inr \<lparr>input = file, outputFile = out, processed = Some processedImage\<rparr>))))"
  by (simp add: convertFile_def Let_def fst_await resolve_def split: sum.splits)

lemma convertFile_fired:
  "aborted signal \<Longrightarrow> fst (convertFile env file opts signal) = Inl AbortError"
  by (simp add: fst_convertFile decodeImage_eq)

lemma convertFile_input:
  "fst (convertFile env file opts signal) = Inr res \<Longrightarrow> input res = file"
  by (auto simp: fst_convertFile split: sum.splits)

text \<open>
  C5, amended. How a failure surfaces from \<^verbatim>\<open>convertFile\<close>:
  \<^item> with a fired signal the call ends in the cancellation error;
  \<^item> a failure of MIME sniffing or of the decodability probe surfaces as it was thrown
    (both run before the \<^verbatim>\<open>try\<close> block);
  \<^item> a failure of the decoder chosen in the \<^verbatim>\<open>try\<close> block surfaces as
    \<^verbatim>\<open>Error("Couldn't decode image")\<close>, unless it is an Error named AbortError, which
    surfaces unmodified;
  \<^item> a failure of the Preprocess, Process or Encode stage surfaces as it was thrown,
    an Error named AbortError included: nothing wraps it, and no error marks the Encode
    stage.
\<close>

theorem convertFile_errors:
  fixes opts :: "'a ConvertOptions_scheme"
  shows
   "(aborted signal \<longrightarrow> fst (convertFile env source opts signal) = Inl AbortError) \<and>
    (\<not> aborted signal \<and> sniffMimeType env source = Inl err \<longrightarrow>
       fst (convertFile env source opts signal) = Inl err) \<and>
    (\<not> aborted signal \<and> sniffMimeType env source = Inr sniffed \<and>
     canDecodeImageType env sniffed = Inl err \<longrightarrow>
       fst (convertFile env source opts signal) = Inl err) \<and>
    (\<not> aborted signal \<and> sniffMimeType env source = Inr sniffed \<and>
     canDecodeImageType env sniffed = Inr canDecode \<and>
     fst (decodeImage_try env signal source (newWorkerBridge env) sniffed canDecode) = Inl err \<longrightarrow>
       fst (convertFile env source opts signal) =
         Inl (if is_AbortError err then err else Error couldnt_decode)) \<and>
    (fst (decodeImage env signal source (newWorkerBridge env)) = Inr decoded \<and>
     fst (preprocessImage signal decoded (preState_of env opts) (newWorkerBridge env)) = Inl err \<longrightarrow>
       fst (convertFile env source opts signal) = Inl err) \<and>
    (fst (decodeImage env signal source (newWorkerBridge env)) = Inr decoded \<and>
     fst (preprocessImage signal decoded (preState_of env opts) (newWorkerBridge env))
       = Inr preprocessed \<and>
     fst (processImage env signal preprocessed decoded (procState_of env opts)
            (newWorkerBridge env)) = Inl err \<longrightarrow>
       fst (convertFile env source opts signal) = Inl err) \<and>
    (fst (decodeImage env signal source (newWorkerBridge env)) = Inr decoded \<and>
     fst (preprocessImage signal decoded (preState_of env opts) (newWorkerBridge env))
       = Inr preprocessed \<and>
     fst (processImage env signal preprocessed decoded (procState_of env opts)
            (newWorkerBridge env)) = Inr processedImage \<and>
     \<not> aborted signal \<and>
     encode (encoderMap env (encoder opts)) signal (newWorkerBridge env) processedImage
       (options (encoderState_of env opts)) = Inl err \<longrightarrow>
       fst (convertFile env source opts signal) = Inl err)"
  by (simp add: fst_convertFile decodeImage_eq encodeImage_eq encoderState_of_def)

text \<open>The example conversions, evaluated.\<close>

lemmas example_defs =
  example_env_def example_bridge_def example_encoder_def example_options_def honour_def
  decode_bits_def preState_of_def procState_of_def encoderState_of_def

lemma decodeImage_photo:
  "decodeImage example_env live photo example_bridge = (Inr pixels, [CallBuiltinDecode photo])"
  by (simp add: decodeImage_eq decodeImage_try_def invoke_def example_defs photo_def pixels_def)

lemma convertFile_photo:
  "fst (convertFile example_env photo (example_options requested) live) =
     Inr \<lparr>input = photo,
          outputFile = \<lparr>name = ''holiday.photo.jpg'', mime = ''image/jpeg'', bits = [6, 8]\<rparr>,
          processed = Some pixels\<rparr>"
proof -
  have "replace_extension ''holiday.photo.png'' ''.jpg'' = ''holiday.photo.jpg''"
    by (simp add: replace_extension_def)
  then show ?thesis
    by (simp add: fst_convertFile decodeImage_eq decodeImage_try_def invoke_def
          preprocessImage_def processImage_def encodeImage_eq resolve_def
          example_defs photo_def pixels_def)
qed

lemma convertFile_broken:
  "fst (convertFile example_env broken (example_options requested) live) = Inl (Error couldnt_decode)"
  by (simp add: fst_convertFile decodeImage_eq decodeImage_try_def invoke_def
        example_defs broken_def is_AbortError_def Error_def)

lemma convertFile_unreadable:
  "fst (convertFile example_env unreadable (example_options requested) live) = Inl (Error ''unreadable'')"
  by (simp add: fst_convertFile decodeImage_eq example_defs unreadable_def)

lemma convertFile_black:
  "fst (convertFile example_env black (example_options requested) live)
     = Inl (Error ''encoder out of memory'')"
  by (simp add: fst_convertFile decodeImage_eq decodeImage_try_def invoke_def
        preprocessImage_def processImage_def encodeImage_eq resolve_def
        example_defs black_def)

theorem convertFile_errors_witness:
  "fst (convertFile example_env photo (example_options None) fired) = Inl AbortError \<and>
   fst (convertFile example_env unreadable (example_options None) live) = Inl (Error ''unreadable'') \<and>
   fst (convertFile example_env mystery (example_options None) live) = Inl (Error ''probe failed'') \<and>
   fst (convertFile example_env broken (example_options None) live) = Inl (Error couldnt_decode) \<and>
   fst (convertFile example_env photo tilted live) = Inl (Error ''unsupported angle'') \<and>
   fst (convertFile example_env photo unsized live) = Inl (Error ''no target size'') \<and>
   fst (convertFile example_env black (example_options None) live)
     = Inl (Error ''encoder out of memory'')"
proof -
  let ?opts = "example_options None"
  let ?dot = "\<lparr>width = 1, height = 1, pixel_data = [0]\<rparr>"
  note errors = convertFile_errors[where env = example_env]
  have bridge [simp]: "newWorkerBridge example_env = example_bridge"
    by (simp add: example_env_def)
  have c1: "fst (convertFile example_env photo ?opts fired) = Inl AbortError"
    using errors[where signal = fired and source = photo and opts = ?opts] by simp
  have "sniffMimeType example_env unreadable = Inl (Error ''unreadable'')"
    by (simp add: example_env_def unreadable_def)
  then have c2: "fst (convertFile example_env unreadable ?opts live) = Inl (Error ''unreadable'')"
    using errors[where signal = live and source = unreadable and opts = ?opts
        and err = "Error ''unreadable''"]
    by simp
  have "sniffMimeType example_env mystery = Inr ''application/octet-stream''"
    and "canDecodeImageType example_env ''application/octet-stream'' = Inl (Error ''probe failed'')"
    by (simp_all add: example_env_def mystery_def)
  then have c3: "fst (convertFile example_env mystery ?opts live) = Inl (Error ''probe failed'')"
    using errors[where signal = live and source = mystery and opts = ?opts
        and err = "Error ''probe failed''" and sniffed = "''application/octet-stream''"]
    by simp
  have "sniffMimeType example_env broken = Inr ''image/png''"
    and "canDecodeImageType example_env ''image/png'' = Inr True"
    and "fst (decodeImage_try example_env live broken example_bridge ''image/png'' True)
      = Inl (Error ''empty file'')"
    and "\<not> is_AbortError (Error ''empty file'')"
    by (simp_all add: decodeImage_try_def invoke_def example_defs broken_def
          is_AbortError_def Error_def)
  then have c4: "fst (convertFile example_env broken ?opts live) = Inl (Error couldnt_decode)"
    using errors[where signal = live and source = broken and opts = ?opts
        and err = "Error ''empty file''" and sniffed = "''image/png''" and canDecode = True]
    by simp
  have photo: "fst (decodeImage example_env live photo example_bridge) = Inr pixels"
    by (simp add: decodeImage_photo)
  have "fst (preprocessImage live pixels (preState_of example_env tilted) example_bridge)
      = Inl (Error ''unsupported angle'')"
    by (simp add: preprocessImage_def invoke_def example_defs tilted_def)
  with photo
  have c5: "fst (convertFile example_env photo tilted live) = Inl (Error ''unsupported angle'')"
    using errors[where signal = live and source = photo and opts = tilted
        and err = "Error ''unsupported angle''" and decoded = pixels]
    by simp
  have "fst (preprocessImage live pixels (preState_of example_env unsized) example_bridge)
      = Inr pixels"
    and "fst (processImage example_env live pixels pixels (procState_of example_env unsized)
      example_bridge) = Inl (Error ''no target size'')"
    by (simp_all add: preprocessImage_def processImage_def invoke_def resolve_def await_pair
          example_defs unsized_def)
  with photo
  have c6: "fst (convertFile example_env photo unsized live) = Inl (Error ''no target size'')"
    using errors[where signal = live and source = photo and opts = unsized
        and err = "Error ''no target size''" and decoded = pixels and preprocessed = pixels]
    by simp
  have "fst (decodeImage example_env live black example_bridge) = Inr ?dot"
    and "fst (preprocessImage live ?dot (preState_of example_env ?opts) example_bridge) = Inr ?dot"
    and "fst (processImage example_env live ?dot ?dot (procState_of example_env ?opts)
      example_bridge) = Inr ?dot"
    and "encode (encoderMap example_env (encoder ?opts)) live example_bridge ?dot
      (options (encoderState_of example_env ?opts)) = Inl (Error ''encoder out of memory'')"
    by (simp_all add: decodeImage_eq decodeImage_try_def invoke_def preprocessImage_def
          processImage_def resolve_def example_defs black_def)
  then
  have c7: "fst (convertFile example_env black ?opts live) = Inl (Error ''encoder out of memory'')"
    using errors[where signal = live and source = black and opts = ?opts
        and err = "Error ''encoder out of memory''" and decoded = ?dot
        and preprocessed = ?dot and processedImage = ?dot]
    by simp
  from c1 c2 c3 c4 c5 c6 c7 show ?thesis by simp
qed

text \<open>
  C5 as stated fails. Sniffing the type is part of the Decode stage; when it fails for
  a reason other than cancellation, \<^verbatim>\<open>convertFile\<close> ends in the error that was
  thrown, not in the decode error. And a failure of the encoder surfaces as the thrown
  value itself.
\<close>

theorem convertFile_errors_counterexample:
  "fst (decodeImage example_env live unreadable example_bridge) = Inl (Error ''unreadable'') \<and>
   \<not> is_AbortError (Error ''unreadable'') \<and>
   fst (convertFile example_env unreadable (example_options None) live) = Inl (Error ''unreadable'') \<and>
   Error ''unreadable'' \<noteq> Error couldnt_decode \<and>
   encode (encoderMap example_env mozJPEG) live example_bridge
     \<lparr>width = 1, height = 1, pixel_data = [0]\<rparr> [(''quality'', 75)]
     = Inl (Error ''encoder out of memory'') \<and>
   fst (convertFile example_env black (example_options None) live)
     = Inl (Error ''encoder out of memory'')"
proof -
  have "fst (decodeImage example_env live unreadable example_bridge) = Inl (Error ''unreadable'')"
    by (simp add: decodeImage_eq example_env_def unreadable_def)
  moreover have "\<not> is_AbortError (Error ''unreadable'')"
    by (simp add: is_AbortError_def Error_def)
  moreover have "Error ''unreadable'' \<noteq> Error couldnt_decode"
    by (simp add: Error_def couldnt_decode_def)
  moreover have "encode (encoderMap example_env mozJPEG) live example_bridge
      \<lparr>width = 1, height = 1, pixel_data = [0]\<rparr> [(''quality'', 75)]
      = Inl (Error ''encoder out of memory'')"
    by (simp add: example_env_def example_encoder_def honour_def)
  ultimately show ?thesis
    by (simp add: convertFile_unreadable convertFile_black)
qed

section \<open>The scheduler: steps, runs and invariants\<close>

lemma report_simps:
  "fst (report opts d n) = (case onProgress opts of None \<Rightarrow> None | Some callback \<Rightarrow> callback d n)"
  "snd (report opts d n) = (case onProgress opts of None \<Rightarrow> [] | Some callback \<Rightarrow> [(d, n)])"
  by (simp_all add: report_def split: option.splits)

lemma finally_block_eq:
  "finally_block opts n idx st =
     (fst (report opts (done_count st + 1) n),
      st\<lparr>done_count := done_count st + 1,
         progress := progress st @ snd (report opts (done_count st + 1) n),
         finalized := finalized st @ [idx]\<rparr>)"
  by (simp add: finally_block_def split: prod.splits)

lemma settle_idle:
  "\<not> (w < length (workers st) \<and> is_Running (workers st ! w)) \<Longrightarrow>
   settle env files opts st w how = st"
  by (auto simp: settle_def split: worker.splits)

lemma settle_cases [case_names idle failure callback_throws success_last success_next]:
  fixes opts :: BatchOptions and files :: "File list" and st :: state
  defines "thrown_by_callback \<equiv> fst (report opts (done_count st + 1) (length files))"
    and "invocations \<equiv> snd (report opts (done_count st + 1) (length files))"
  assumes "P st"
    and "\<And>idx seen err. \<lbrakk>w < length (workers st); workers st ! w = Running idx seen;
            outcome env files opts st idx seen how = Inl err\<rbrakk> \<Longrightarrow>
          P (st\<lparr>done_count := done_count st + 1,
                progress := progress st @ invocations,
                finalized := finalized st @ [idx],
                workers := (workers st)
                  [w := Rejected (case thrown_by_callback of None \<Rightarrow> err | Some c \<Rightarrow> c)],
                rejection := (case rejection st of
                                None \<Rightarrow> Some (case thrown_by_callback of None \<Rightarrow> err | Some c \<Rightarrow> c)
                              | Some first \<Rightarrow> Some first)\<rparr>)"
    and "\<And>idx seen res c. \<lbrakk>w < length (workers st); workers st ! w = Running idx seen;
            outcome env files opts st idx seen how = Inr res; thrown_by_callback = Some c\<rbrakk> \<Longrightarrow>
          P (st\<lparr>results := set_slot (results st) idx res,
                done_count := done_count st + 1,
                progress := progress st @ invocations,
                finalized := finalized st @ [idx],
                workers := (workers st)[w := Rejected c],
                rejection := (case rejection st of None \<Rightarrow> Some c | Some first \<Rightarrow> Some first)\<rparr>)"
    and "\<And>idx seen res. \<lbrakk>w < length (workers st); workers st ! w = Running idx seen;
            outcome env files opts st idx seen how = Inr res; thrown_by_callback = None;
            queue st = []\<rbrakk> \<Longrightarrow>
          P (st\<lparr>results := set_slot (results st) idx res,
                done_count := done_count st + 1,
                progress := progress st @ invocations,
                finalized := finalized st @ [idx],
                workers := (workers st)[w := Resolved]\<rparr>)"
    and "\<And>idx seen res j rest. \<lbrakk>w < length (workers st); workers st ! w = Running idx seen;
            outcome env files opts st idx seen how = Inr res; thrown_by_callback = None;
            queue st = j # rest\<rbrakk> \<Longrightarrow>
          P (st\<lparr>results := set_slot (results st) idx res,
                done_count := done_count st + 1,
                progress := progress st @ invocations,
                finalized := finalized st @ [idx],
                queue := rest,
                workers := (workers st)[w := Running j (token st)]\<rparr>)"
  shows "P (settle env files opts st w how)"
proof (cases "w < length (workers st) \<and> is_Running (workers st ! w)")
  case False
  with assms(3) show ?thesis by (simp add: settle_idle)
next
  case True
  then obtain idx seen where idx: "w < length (workers st)" "workers st ! w = Running idx seen"
    by (cases "workers st ! w") auto
  note rules = assms(4-7)[unfolded thrown_by_callback_def invocations_def]
  show ?thesis
  proof (cases "outcome env files opts st idx seen how")
    case (Inl err)
    from rules(1)[OF idx Inl] idx Inl show ?thesis
      by (cases "fst (report opts (done_count st + 1) (length files))")
         (simp_all add: settle_def finally_block_eq reject_worker_def cong: option.case_cong)
  next
    case (Inr res)
    show ?thesis
    proof (cases "fst (report opts (done_count st + 1) (length files))")
      case (Some c)
      from rules(2)[OF idx Inr Some] idx Inr Some show ?thesis
        by (simp add: settle_def finally_block_eq reject_worker_def)
    next
      case None
      show ?thesis
      proof (cases "queue st")
        case Nil
        from rules(3)[OF idx Inr None Nil] idx Inr None Nil show ?thesis
          by (simp add: settle_def finally_block_eq loop_head_def)
      next
        case (Cons j rest)
        from rules(4)[OF idx Inr None Cons] idx Inr None Cons show ?thesis
          by (simp add: settle_def finally_block_eq loop_head_def)
      qed
    qed
  qed
qed

lemma length_workers_settle [simp]:
  "length (workers (settle env files opts st w how)) = length (workers st)"
  by (induction rule: settle_cases) simp_all

lemma drain_None: "first_pending (workers st) = None \<Longrightarrow> drain env files opts st = st"
  by (subst drain.simps) simp

lemma drain_Some:
  "first_pending (workers st) = Some w \<Longrightarrow>
   drain env files opts st = drain env files opts (settle env files opts st w (Throws AbortError))"
  by (subst drain.simps) simp

lemma drain_invariant:
  assumes "P st" and "\<And>st w how. P st \<Longrightarrow> P (settle env files opts st w how)"
  shows "P (drain env files opts st)"
  using assms
proof (induction env files opts st rule: drain.induct)
  case (1 env files opts st)
  show ?case
  proof (cases "first_pending (workers st)")
    case None
    with "1.prems"(1) show ?thesis by (subst drain.simps) simp
  next
    case (Some w)
    from "1.prems" have "P (settle env files opts st w (Throws AbortError))" by blast
    from "1.IH"[OF Some this "1.prems"(2)] Some show ?thesis
      by (subst drain.simps) simp
  qed
qed

lemma drain_quiescent: "first_pending (workers (drain env files opts st)) = None"
proof (induction env files opts st rule: drain.induct)
  case (1 env files opts st)
  then show ?case
    by (subst drain.simps) (simp split: option.splits)
qed

lemma run_invariant:
  assumes "P st"
    and "\<And>st w how. P st \<Longrightarrow> P (settle env files opts st w how)"
    and "\<And>st. P st \<Longrightarrow> P (st\<lparr>token := \<lparr>aborted = True\<rparr>\<rparr>)"
  shows "P (run env files opts schedule st)"
  using assms(1) unfolding run_def
proof (induction schedule arbitrary: st)
  case Nil
  then show ?case by simp
next
  case (Cons e es)
  from Cons.prems assms(2,3) have "P (step env files opts st e)"
    by (cases e) simp_all
  from Cons.IH[OF this] show ?case by simp
qed

lemma convertFiles_invariant:
  assumes "P (start files opts signal)"
    and "\<And>st w how. P st \<Longrightarrow> P (settle env files opts st w how)"
    and "\<And>st. P st \<Longrightarrow> P (st\<lparr>token := \<lparr>aborted = True\<rparr>\<rparr>)"
  shows "P (convertFiles env files opts signal schedule)"
proof -
  have "P (run env files opts schedule (start files opts signal))"
    using assms by (rule run_invariant)
  then show ?thesis
    unfolding convertFiles_def using assms(2) by (rule drain_invariant)
qed

lemma convertFiles_quiescent:
  "first_pending (workers (convertFiles env files opts signal schedule)) = None"
  by (simp add: convertFiles_def drain_quiescent)

subsection \<open>The number of workers\<close>

lemma floor_min_nat: "nat \<lfloor>min x (real n)\<rfloor> = min (nat \<lfloor>x\<rfloor>) n"
proof (cases "x \<le> real n")
  case True
  then have "\<lfloor>x\<rfloor> \<le> int n" by (simp add: floor_le_iff)
  then have "nat \<lfloor>x\<rfloor> \<le> n" by linarith
  with True show ?thesis by (simp add: min_def)
next
  case False
  then have "int n \<le> \<lfloor>x\<rfloor>" by (simp add: le_floor_iff)
  then have "n \<le> nat \<lfloor>x\<rfloor>" by linarith
  with False show ?thesis by (simp add: min_def)
qed

lemma nat_floor_clamp: "1 \<le> nat \<lfloor>max 1 (min x 8 :: real)\<rfloor>" "nat \<lfloor>max 1 (min x 8 :: real)\<rfloor> \<le> 8"
proof -
  have "1 \<le> \<lfloor>max 1 (min x 8)\<rfloor>" by (simp add: le_floor_iff)
  then show "1 \<le> nat \<lfloor>max 1 (min x 8)\<rfloor>" by linarith
  have "\<lfloor>max 1 (min x 8)\<rfloor> \<le> 8" by (simp add: floor_le_iff)
  then show "nat \<lfloor>max 1 (min x 8)\<rfloor> \<le> 8" by linarith
qed

lemma worker_count_eq:
  "worker_count files opts =
     (case concurrency opts of
        None \<Rightarrow> min 2 (length files)
      | Some NaN \<Rightarrow> 0
      | Some NegInfinity \<Rightarrow> min 1 (length files)
      | Some (Finite requested) \<Rightarrow> min (nat \<lfloor>max 1 (min requested 8)\<rfloor>) (length files)
      | Some Infinity \<Rightarrow> min 8 (length files))"
proof -
  have cap: "min (min k (length files)) (2 ^ 53 - 1) = min k (length files)" if "k \<le> 8" for k :: nat
    using that by simp
  show ?thesis
  proof (cases "concurrency opts")
    case None
    with cap[of 2] show ?thesis
      by (simp add: worker_count_def conc_def floor_min_nat)
  next
    case (Some requested)
    show ?thesis
    proof (cases requested)
      case NaN
      with Some show ?thesis by (simp add: worker_count_def conc_def)
    next
      case NegInfinity
      with Some cap[of 1] show ?thesis by (simp add: worker_count_def conc_def floor_min_nat)
    next
      case (Finite r)
      with Some cap[OF nat_floor_clamp(2), of r] show ?thesis
        by (simp add: worker_count_def conc_def floor_min_nat)
    next
      case Infinity
      with Some cap[of 8] show ?thesis by (simp add: worker_count_def conc_def floor_min_nat)
    qed
  qed
qed

lemma worker_count_le: "worker_count files opts \<le> length files"
  by (simp add: worker_count_eq split: option.splits number.splits)

lemma worker_count_pos:
  "files \<noteq> [] \<Longrightarrow> 0 < worker_count files opts \<longleftrightarrow> concurrency opts \<noteq> Some NaN"
  using nat_floor_clamp(1)
  by (auto simp: worker_count_eq Suc_le_eq split: option.splits number.splits)

text \<open>The state after the workers are spawned.\<close>

lemma spawn_Cons:
  "queue st = idx # rest \<Longrightarrow>
   spawn st = st\<lparr>queue := rest, workers := workers st @ [Running idx (token st)]\<rparr>"
  by (simp add: spawn_def loop_head_def)

lemma spawn_pow:
  "n \<le> length (queue st) \<Longrightarrow>
   (spawn ^^ n) st = st\<lparr>queue := drop n (queue st),
                          workers := workers st @ map (\<lambda>idx. Running idx (token st)) (take n (queue st))\<rparr>"
proof (induction n)
  case 0
  then show ?case by simp
next
  case (Suc n)
  then have n: "n < length (queue st)" by simp
  let ?st = "st\<lparr>queue := drop n (queue st),
                 workers := workers st @ map (\<lambda>idx. Running idx (token st)) (take n (queue st))\<rparr>"
  from n have "queue ?st = queue st ! n # drop (Suc n) (queue st)"
    by (simp add: Cons_nth_drop_Suc)
  from spawn_Cons[OF this] n have "spawn ?st =
      st\<lparr>queue := drop (Suc n) (queue st),
         workers := workers st @ map (\<lambda>idx. Running idx (token st)) (take (Suc n) (queue st))\<rparr>"
    by (simp add: take_Suc_conv_app_nth)
  moreover from Suc.IH n have "(spawn ^^ Suc n) st = spawn ?st"
    by simp
  ultimately show ?case by simp
qed

lemma start_eq:
  "start files opts signal =
     \<lparr>queue = [worker_count files opts..<length files], results = [], done_count = 0,
      progress = [], workers = map (\<lambda>idx. Running idx signal) [0..<worker_count files opts],
      rejection = None, token = signal, finalized = []\<rparr>"
proof -
  let ?st = "\<lparr>queue = [0..<length files], results = [], done_count = 0, progress = [],
      workers = [], rejection = None, token = signal, finalized = []\<rparr>"
  have "worker_count files opts \<le> length (queue ?st)"
    by (simp add: worker_count_le)
  from spawn_pow[OF this] show ?thesis
    by (simp add: start_def worker_count_le)
qed

lemma length_workers_convertFiles:
  "length (workers (convertFiles env files opts signal schedule)) = worker_count files opts"
  by (rule convertFiles_invariant) (simp_all add: start_eq)

subsection \<open>Where the items are\<close>

lemma items_of_map_Running [simp]: "items_of (map (\<lambda>idx. Running idx seen) xs) = xs"
  by (induction xs) simp_all

lemma items_of_quiescent: "first_pending ws = None \<Longrightarrow> items_of ws = []"
  by (induction ws rule: first_pending.induct) auto

lemma running_item:
  "w < length ws \<Longrightarrow> ws ! w = Running idx seen \<Longrightarrow> idx \<in> set (items_of ws)"
proof (induction ws arbitrary: w)
  case Nil
  then show ?case by simp
next
  case (Cons a ws)
  then show ?case by (cases w; cases a) auto
qed

lemma mset_items_of_update:
  "w < length ws \<Longrightarrow> ws ! w = Running idx seen \<Longrightarrow>
   add_mset idx (mset (items_of (ws[w := x]))) = mset (items_of ws) + mset (items_of [x])"
proof (induction ws arbitrary: w)
  case Nil
  then show ?case by simp
next
  case (Cons a ws)
  show ?case
  proof (cases w)
    case 0
    with Cons.prems show ?thesis by (cases x) simp_all
  next
    case (Suc v)
    with Cons.prems have "v < length ws" "ws ! v = Running idx seen" by simp_all
    from Cons.IH[OF this] Suc show ?thesis by (cases a) simp_all
  qed
qed

lemma accounted_start: "accounted (length files) (start files opts signal)"
proof -
  have "worker_count files opts \<le> length files" by (rule worker_count_le)
  then have "[0..<worker_count files opts] @ [worker_count files opts..<length files]
      = [0..<length files]"
    by (metis le_add_diff_inverse upt_add_eq_append zero_le)
  then have "mset [0..<worker_count files opts] + mset [worker_count files opts..<length files]
      = mset [0..<length files]"
    by (metis mset_append)
  then show ?thesis by (simp add: accounted_def start_eq)
qed

lemma accounted_step:
  assumes "accounted n st"
    and "w < length (workers st)" and "workers st ! w = Running idx seen"
    and "mset (items_of [x]) + mset rest = mset (queue st)"
    and "finalized st' = finalized st @ [idx]"
    and "workers st' = (workers st)[w := x]"
    and "queue st' = rest"
  shows "accounted n st'"
proof -
  have "mset (finalized st') + mset (items_of (workers st')) + mset (queue st') =
      mset (finalized st) + add_mset idx (mset (items_of ((workers st)[w := x]))) + mset rest"
    by (simp add: assms(5-7))
  also have "add_mset idx (mset (items_of ((workers st)[w := x])))
      = mset (items_of (workers st)) + mset (items_of [x])"
    using assms(2,3) by (rule mset_items_of_update)
  also have "mset (finalized st) + (mset (items_of (workers st)) + mset (items_of [x])) + mset rest
      = mset (finalized st) + mset (items_of (workers st)) + (mset (items_of [x]) + mset rest)"
    by (simp add: ac_simps)
  also note assms(4)
  also from assms(1) have "mset (finalized st) + mset (items_of (workers st)) + mset (queue st)
      = mset [0..<n]"
    by (simp only: accounted_def)
  finally show ?thesis by (simp only: accounted_def)
qed

lemma accounted_settle:
  assumes "accounted n st"
  shows "accounted n (settle env files opts st w how)"
proof (induction rule: settle_cases)
  case idle
  show ?case by (rule assms)
next
  case (failure idx seen err)
  show ?case
    by (rule accounted_step[OF assms failure(1,2), where rest = "queue st"]) simp_all
next
  case (callback_throws idx seen res c)
  show ?case
    by (rule accounted_step[OF assms callback_throws(1,2), where rest = "queue st"]) simp_all
next
  case (success_last idx seen res)
  show ?case
    by (rule accounted_step[OF assms success_last(1,2), where rest = "queue st"]) simp_all
next
  case (success_next idx seen res j rest)
  show ?case
    by (rule accounted_step[OF assms success_next(1,2), where rest = rest])
       (simp_all add: success_next(5))
qed

lemma accountedD:
  assumes "accounted n st"
  shows "distinct (finalized st @ items_of (workers st) @ queue st)"
    and "set (finalized st) \<union> set (items_of (workers st)) \<union> set (queue st) = {0..<n}"
    and "length (finalized st) + length (items_of (workers st)) + length (queue st) = n"
proof -
  from assms have eq: "mset (finalized st @ items_of (workers st) @ queue st) = mset [0..<n]"
    by (simp add: accounted_def ac_simps)
  from mset_eq_imp_distinct_iff[OF eq] show "distinct (finalized st @ items_of (workers st) @ queue st)"
    by simp
  from mset_eq_setD[OF eq]
  show "set (finalized st) \<union> set (items_of (workers st)) \<union> set (queue st) = {0..<n}"
    by (simp add: Un_assoc)
  from mset_eq_length[OF eq]
  show "length (finalized st) + length (items_of (workers st)) + length (queue st) = n"
    by simp
qed

subsection \<open>The counter and the invocations of the callback\<close>

lemma counted_start: "counted opts n (start files opts signal)"
  by (simp add: counted_def start_eq split: option.splits)

lemma counted_settle:
  assumes "counted opts (length files) st"
  shows "counted opts (length files) (settle env files opts st w how)"
  by (induction rule: settle_cases)
     (use assms in \<open>simp_all add: counted_def report_simps split: option.splits\<close>)

lemma counted_convertFiles:
  "counted opts (length files) (convertFiles env files opts signal schedule)"
  by (rule convertFiles_invariant)
     (simp_all add: counted_start counted_settle, simp add: counted_def cong: option.case_cong)

subsection \<open>A signal that fired before the call\<close>

lemma convert_item_fired:
  "idx < length files \<Longrightarrow> aborted t \<Longrightarrow> convert_item env files opts t idx = Inl AbortError"
  by (simp add: convert_item_def convertFile_fired)

lemma outcome_fired:
  "idx < length files \<Longrightarrow> aborted seen \<Longrightarrow>
   outcome env files opts st idx seen how = Inl AbortError"
  by (simp add: outcome_def convert_item_fired)

lemma pending_count_map_Running [simp]:
  "pending_count (map (\<lambda>idx. Running idx seen) xs) = length xs"
  by (induction xs) (simp_all add: pending_count_def)

lemma pending_count_quiescent: "first_pending ws = None \<Longrightarrow> pending_count ws = 0"
  by (simp add: first_pending_None pending_count_def)

lemma cancelled_settle:
  assumes "cancelled opts (length files) st" and "accounted (length files) st"
    and "counted opts (length files) st"
  shows "cancelled opts (length files) (settle env files opts st w how)"
proof (induction rule: settle_cases)
  case idle
  show ?case by (rule assms)
next
  case (failure idx seen err)
  let ?thrown = "case fst (report opts (done_count st + 1) (length files)) of
      None \<Rightarrow> err | Some c \<Rightarrow> c"
  from running_item[OF failure(1,2)] accountedD(2)[OF assms(2)]
  have idx: "idx < length files" by auto
  from failure(1,2) have "Running idx seen \<in> set (workers st)"
    by (metis nth_mem)
  with assms(1) have "aborted seen" by (auto simp: cancelled_def)
  with failure(3) idx have err: "err = AbortError"
    by (simp add: outcome_fired)
  have first: "?thrown = first_cancellation opts (length files)" if "finalized st = []"
    using that assms(3) err by (simp add: counted_def first_cancellation_def split: option.splits)
  have "set ((workers st)[w := Rejected ?thrown]) \<subseteq> insert (Rejected ?thrown) (set (workers st))"
    by (rule set_update_subset_insert)
  moreover from failure(2) have running: "is_Running (workers st ! w)" by simp
  from failure(1) running have "0 < pending_count (workers st)"
    by (rule pending_count_pos)
  moreover from failure(1) running
  have "pending_count ((workers st)[w := Rejected ?thrown]) = pending_count (workers st) - 1"
    by (simp add: pending_count_update)
  ultimately show ?case
    using assms(1) first by (auto simp: cancelled_def)
next
  case (callback_throws idx seen res c)
  from running_item[OF callback_throws(1,2)] accountedD(2)[OF assms(2)]
  have "idx < length files" by auto
  moreover from callback_throws(1,2) have "Running idx seen \<in> set (workers st)"
    by (metis nth_mem)
  with assms(1) have "aborted seen" by (auto simp: cancelled_def)
  ultimately show ?case using callback_throws(3) by (simp add: outcome_fired)
next
  case (success_last idx seen res)
  from running_item[OF success_last(1,2)] accountedD(2)[OF assms(2)]
  have "idx < length files" by auto
  moreover from success_last(1,2) have "Running idx seen \<in> set (workers st)"
    by (metis nth_mem)
  with assms(1) have "aborted seen" by (auto simp: cancelled_def)
  ultimately show ?case using success_last(3) by (simp add: outcome_fired)
next
  case (success_next idx seen res j rest)
  from running_item[OF success_next(1,2)] accountedD(2)[OF assms(2)]
  have "idx < length files" by auto
  moreover from success_next(1,2) have "Running idx seen \<in> set (workers st)"
    by (metis nth_mem)
  with assms(1) have "aborted seen" by (auto simp: cancelled_def)
  ultimately show ?case using success_next(3) by (simp add: outcome_fired)
qed

lemma cancelled_convertFiles:
  assumes "aborted signal"
  shows "cancelled opts (length files) (convertFiles env files opts signal schedule)"
proof -
  let ?P = "\<lambda>st. cancelled opts (length files) st \<and> accounted (length files) st \<and>
      counted opts (length files) st"
  have "?P (convertFiles env files opts signal schedule)"
  proof (rule convertFiles_invariant)
    from assms show "?P (start files opts signal)"
      by (simp add: accounted_start counted_start) (simp add: cancelled_def start_eq)
  next
    fix st w how
    assume "?P st"
    then show "?P (settle env files opts st w how)"
      by (simp add: cancelled_settle accounted_settle counted_settle)
  next
    fix st
    assume "?P st"
    then show "?P (st\<lparr>token := \<lparr>aborted = True\<rparr>\<rparr>)"
      by (simp add: cancelled_def accounted_def counted_def cong: option.case_cong)
  qed
  then show ?thesis by simp
qed

section \<open>Example runs\<close>

lemma convertFile_png:
  assumes "mime f = ''image/png''" and "bits f \<noteq> []" and "bits f \<noteq> [0]"
  shows "fst (convertFile example_env f (example_options requested) live) = Inr (converted f)"
proof -
  from assms(2) obtain b bs where "bits f = b # bs" by (cases "bits f") auto
  with assms(1,3) show ?thesis
    by (simp add: fst_convertFile decodeImage_eq decodeImage_try_def invoke_def
          preprocessImage_def processImage_def encodeImage_eq resolve_def
          example_defs converted_def)
qed

lemma convert_item_examples [simp]:
  "convert_item example_env [broken, photo] (example_options requested) live 0
     = Inl (Error couldnt_decode)"
  "convert_item example_env [photo, portrait, photo] (example_options requested) live 0
     = Inr (converted photo)"
  "convert_item example_env [photo, portrait, photo] (example_options requested) live (Suc 0)
     = Inr (converted portrait)"
  "convert_item example_env [photo, portrait, photo] (example_options requested) live (Suc (Suc 0))
     = Inr (converted photo)"
  by (simp_all add: convert_item_def convertFile_broken convertFile_png photo_def portrait_def)

lemma convert_item_photo_broken [simp]:
  "convert_item example_env [photo, broken] (example_options requested) live 0
     = Inr (converted photo)"
  "convert_item example_env [photo, broken] (example_options requested) live (Suc 0)
     = Inl (Error couldnt_decode)"
  by (simp_all add: convert_item_def convertFile_broken convertFile_png photo_def)

lemma onProgress_examples [simp]:
  "onProgress (example_options requested) = Some (\<lambda>d n. None)"
  "onProgress (requesting r) = Some (\<lambda>d n. None)"
  "concurrency (requesting r) = Some r"
  by (simp_all add: example_options_def requesting_def)

lemma worker_count_examples [simp]:
  "worker_count [broken, photo] (example_options (Some 1)) = 1"
  "worker_count [photo, portrait, photo] (example_options (Some 2)) = 2"
  "worker_count [photo] (example_options None) = 1"
  by (simp_all add: worker_count_eq example_options_def)

lemma worker_count_two [simp]:
  "worker_count [photo, broken] (example_options (Some 2)) = 2"
  by (simp add: worker_count_eq example_options_def)

lemma worker_count_requesting [simp]:
  "worker_count [photo, portrait, photo] (requesting (Finite (5 / 2))) = 2"
  "worker_count [photo, portrait] (requesting NaN) = 0"
  by (simp_all add: worker_count_eq)

lemmas run_simps = convertFiles_def run_def start_eq settle_def finally_block_eq report_simps
  reject_worker_def loop_head_def outcome_def set_slot_def numeral_2_eq_2 numeral_3_eq_3

lemma run_broken_first:
  "convertFiles example_env [broken, photo] (example_options (Some 1)) live [] =
     \<lparr>queue = [1], results = [], done_count = 1, progress = [(1, 2)],
      workers = [Rejected (Error couldnt_decode)], rejection = Some (Error couldnt_decode),
      token = live, finalized = [0]\<rparr>"
  by (simp add: run_simps drain_Some drain_None)

lemma run_broken_second:
  "convertFiles example_env [photo, broken] (example_options (Some 2)) live [Settle 0 Completes] =
     \<lparr>queue = [], results = [Some (converted photo)], done_count = 2,
      progress = [(1, 2), (2, 2)],
      workers = [Resolved, Rejected (Error couldnt_decode)],
      rejection = Some (Error couldnt_decode), token = live, finalized = [0, 1]\<rparr>"
  by (simp add: run_simps drain_Some drain_None)

lemma run_fired:
  "convertFiles example_env [photo] (example_options None) fired [] =
     \<lparr>queue = [], results = [], done_count = 1, progress = [(1, 1)],
      workers = [Rejected AbortError], rejection = Some AbortError,
      token = fired, finalized = [0]\<rparr>"
  by (simp add: run_simps drain_Some drain_None convert_item_fired)


section \<open>The batch scheduler: the claims\<close>



text \<open>
  C1, as the code behaves. One worker runs a batch of two files, and the first cannot be
  decoded. The error leaves the worker's loop: the worker's promise is rejected, the
  call rejects with the error, the array holds no entry for the failed item, and the
  second file stays in the queue, never attempted, although it converts without error.
\<close>

theorem failure_stops_worker:
  "returned (convertFiles example_env [broken, photo] (example_options (Some 1)) live [])
     = Inl (Error couldnt_decode) \<and>
   workers (convertFiles example_env [broken, photo] (example_options (Some 1)) live [])
     = [Rejected (Error couldnt_decode)] \<and>
   queue (convertFiles example_env [broken, photo] (example_options (Some 1)) live []) = [1] \<and>
   results (convertFiles example_env [broken, photo] (example_options (Some 1)) live []) = [] \<and>
   finalized (convertFiles example_env [broken, photo] (example_options (Some 1)) live []) = [0] \<and>
   fst (convertFile example_env photo (example_options (Some 1)) live) = Inr (converted photo)"
proof -
  have "fst (convertFile example_env photo (example_options (Some 1)) live) = Inr (converted photo)"
    by (simp add: convertFile_png photo_def)
  then show ?thesis unfolding run_broken_first returned_def by simp
qed

text \<open>
  C2, as the code behaves. Two workers run a batch of two files, of which the second
  cannot be decoded; the signal never fires. The call rejects with the error of the
  second file, so the caller receives no collection at all; the array the call leaves
  behind has one slot, for the file that converted, and none for the item that failed.
\<close>

theorem failed_item_rejects_call:
  "returned (convertFiles example_env [photo, broken] (example_options (Some 2)) live
     [Settle 0 Completes]) = Inl (Error couldnt_decode) \<and>
   results (convertFiles example_env [photo, broken] (example_options (Some 2)) live
     [Settle 0 Completes]) = [Some (converted photo)] \<and>
   length (results (convertFiles example_env [photo, broken] (example_options (Some 2)) live
     [Settle 0 Completes])) \<noteq> length [photo, broken] \<and>
   token (convertFiles example_env [photo, broken] (example_options (Some 2)) live
     [Settle 0 Completes]) = \<lparr>aborted = False\<rparr>"
  unfolding run_broken_second returned_def by (simp add: live_def)

text \<open>
  C3, as the code behaves. One worker runs a batch of two files, of which the first
  cannot be decoded; the signal never fires. The callback is invoked once, with
  \<open>done = 1\<close> of a total of 2, and never again: the error of the first item has left
  the worker's loop, and the second item is never finalized.
\<close>

theorem failed_item_ends_progress:
  "token (convertFiles example_env [broken, photo] (example_options (Some 1)) live [])
     = \<lparr>aborted = False\<rparr> \<and>
   returned (convertFiles example_env [broken, photo] (example_options (Some 1)) live [])
     = Inl (Error couldnt_decode) \<and>
   \<not> is_AbortError (Error couldnt_decode) \<and>
   progress (convertFiles example_env [broken, photo] (example_options (Some 1)) live [])
     = [(1, 2)] \<and>
   done_count (convertFiles example_env [broken, photo] (example_options (Some 1)) live []) = 1"
  unfolding run_broken_first returned_def
  by (simp add: live_def is_AbortError_def Error_def)

text \<open>
  C4, amended. With a signal that has fired before the call and a batch that is not
  empty, \<^verbatim>\<open>convertFiles\<close> stores no result, under every schedule. Each worker it
  spawns shifts one index off the queue, its conversion throws the cancellation error
  at the first \<^verbatim>\<open>assertSignal\<close>, and the \<^verbatim>\<open>finally\<close> block invokes the progress
  callback for it: the callback, when there is one, is invoked exactly once per spawned
  worker, with \<open>done = 1, 2, \<dots>\<close>. The call rejects with the cancellation error, or with
  what the first invocation of the callback threw. Only the request \<^verbatim>\<open>NaN\<close> spawns no
  worker; then the callback is not invoked and the call returns the empty array.
\<close>

theorem cancelled_before_start:
  assumes "files \<noteq> []" and "aborted signal"
  shows "let st = convertFiles env files opts signal schedule;
             spawned = length (workers st)
         in results st = [] \<and>
            spawned = worker_count files opts \<and>
            (spawned = 0 \<longleftrightarrow> concurrency opts = Some NaN) \<and>
            progress st =
              (case onProgress opts of
                 None \<Rightarrow> []
               | Some callback \<Rightarrow> map (\<lambda>k. (Suc k, length files)) [0..<spawned]) \<and>
            returned st =
              (if spawned = 0 then Inr []
               else Inl (case onProgress opts of
                           None \<Rightarrow> AbortError
                         | Some callback \<Rightarrow>
                             (case callback 1 (length files) of
                                None \<Rightarrow> AbortError
                              | Some thrown_by_callback \<Rightarrow> thrown_by_callback)))"
proof -
  let ?st = "convertFiles env files opts signal schedule"
  have spawned: "length (workers ?st) = worker_count files opts"
    by (rule length_workers_convertFiles)
  from worker_count_pos[OF assms(1), of opts]
  have nan: "worker_count files opts = 0 \<longleftrightarrow> concurrency opts = Some NaN" by auto
  from cancelled_convertFiles[OF assms(2), of opts files env schedule]
  have c: "results ?st = []"
    "rejection ?st = (if finalized ?st = [] then None
                      else Some (first_cancellation opts (length files)))"
    "length (finalized ?st) + pending_count (workers ?st) = length (workers ?st)"
    by (simp_all add: cancelled_def)
  from c(3) pending_count_quiescent[OF convertFiles_quiescent, of env files opts signal schedule]
  have n: "length (finalized ?st) = worker_count files opts"
    by (simp add: length_workers_convertFiles)
  from counted_convertFiles[of opts files env signal schedule] n
  have p: "progress ?st =
      (case onProgress opts of
         None \<Rightarrow> []
       | Some callback \<Rightarrow> map (\<lambda>k. (Suc k, length files)) [0..<worker_count files opts])"
    by (simp add: counted_def cong: option.case_cong)
  have r: "returned ?st =
      (if worker_count files opts = 0 then Inr []
       else Inl (case onProgress opts of
                   None \<Rightarrow> AbortError
                 | Some callback \<Rightarrow>
                     (case callback 1 (length files) of
                        None \<Rightarrow> AbortError
                      | Some thrown_by_callback \<Rightarrow> thrown_by_callback)))"
  proof (cases "worker_count files opts = 0")
    case True
    with n c(1,2) show ?thesis by (simp add: returned_def)
  next
    case False
    with n have "finalized ?st \<noteq> []" by auto
    with c(2) False show ?thesis
      by (simp add: returned_def first_cancellation_def report_simps split: option.splits)
  qed
  show ?thesis
    unfolding Let_def spawned using c(1) nan p r by blast
qed

theorem cancelled_before_start_witness:
  "results (convertFiles example_env [photo, portrait, photo] (example_options (Some 2)) fired
      [Settle 1 Completes]) = [] \<and>
   length (workers (convertFiles example_env [photo, portrait, photo] (example_options (Some 2))
      fired [Settle 1 Completes])) = 2 \<and>
   progress (convertFiles example_env [photo, portrait, photo] (example_options (Some 2)) fired
      [Settle 1 Completes]) = [(1, 3), (2, 3)] \<and>
   returned (convertFiles example_env [photo, portrait, photo] (example_options (Some 2)) fired
      [Settle 1 Completes]) = Inl AbortError \<and>
   length (workers (convertFiles example_env [photo, portrait] (requesting NaN) fired [])) = 0 \<and>
   progress (convertFiles example_env [photo, portrait] (requesting NaN) fired []) = [] \<and>
   returned (convertFiles example_env [photo, portrait] (requesting NaN) fired []) = Inr []"
proof -
  let ?files = "[photo, portrait, photo]"
  let ?st = "convertFiles example_env ?files (example_options (Some 2)) fired [Settle 1 Completes]"
  let ?none = "convertFiles example_env [photo, portrait] (requesting NaN) fired []"
  have "?files \<noteq> []" and "aborted fired" by simp_all
  note inst = cancelled_before_start[of ?files fired example_env "example_options (Some 2)"
      "[Settle 1 Completes]", OF this, unfolded Let_def]
  from inst have r: "results ?st = []"
    and w: "length (workers ?st) = worker_count ?files (example_options (Some 2))"
    and p: "progress ?st =
      (case onProgress (example_options (Some 2)) of
         None \<Rightarrow> []
       | Some callback \<Rightarrow> map (\<lambda>k. (Suc k, length ?files)) [0..<length (workers ?st)])"
    and e: "returned ?st =
      (if length (workers ?st) = 0 then Inr []
       else Inl (case onProgress (example_options (Some 2)) of
                   None \<Rightarrow> AbortError
                 | Some callback \<Rightarrow>
                     (case callback 1 (length ?files) of
                        None \<Rightarrow> AbortError
                      | Some thrown_by_callback \<Rightarrow> thrown_by_callback)))"
    by blast+
  from w have n: "length (workers ?st) = 2" by simp
  from p have "progress ?st = [(1, 3), (2, 3)]"
    unfolding n by (simp add: numeral_2_eq_2)
  moreover from e have "returned ?st = Inl AbortError"
    unfolding n by simp
  moreover have "[photo, portrait] \<noteq> []" and "aborted fired" by simp_all
  note none = cancelled_before_start[of "[photo, portrait]" fired example_env "requesting NaN"
      "[]", OF this, unfolded Let_def]
  from none have z: "length (workers ?none) = 0" by simp
  from none have "progress ?none = []"
    unfolding z by simp
  moreover from none have "returned ?none = Inr []"
    unfolding z by simp
  ultimately show ?thesis using r n z by blast
qed

text \<open>
  C4 as stated fails. With a fired signal and a batch of one file, the progress callback
  is invoked once.
\<close>

theorem cancelled_before_start_counterexample:
  "aborted fired \<and>
   progress (convertFiles example_env [photo] (example_options None) fired []) = [(1, 1)] \<and>
   length (progress (convertFiles example_env [photo] (example_options None) fired [])) \<noteq> 0"
  unfolding run_fired by simp

end
